theory Spec2Isabelle
  imports Complex_Main "HOL-Library.AList" "HOL-Library.Log_Nat"
begin

section \<open>The sparse matrix of \<^verbatim>\<open>src/SparseMatrix.js\<close>\<close>

text \<open>
  The class keeps its entries in a JavaScript \<^verbatim>\<open>Map\<close> from the key string
  \<^verbatim>\<open>`${row},${col}`\<close> to a number. A JavaScript map iterates in insertion order:
  \<^verbatim>\<open>set\<close> on a key already present replaces the value where it stands, \<^verbatim>\<open>set\<close>
  on a new key appends, \<^verbatim>\<open>delete\<close> removes. The model is an association list in
  that order.

  A number of the class is a JavaScript Number that holds an integer: the file loader
  produces every coordinate and value with \<^verbatim>\<open>parseInt\<close> and rejects \<^verbatim>\<open>NaN\<close> values, and
  the arithmetic of the class is \<^verbatim>\<open>+\<close>, \<^verbatim>\<open>-\<close> and \<^verbatim>\<open>*\<close>. The model is the integer the
  Number holds, of type \<^typ>\<open>int\<close>, with the rounding of the arithmetic written out (next
  subsection). The key string \<^verbatim>\<open>`${row},${col}`\<close> and the pair \<open>(row, col)\<close> determine each
  other (\<^verbatim>\<open>key.split(",").map(Number)\<close> reads the pair back), so the key is the pair.
\<close>

subsection \<open>Numbers: doubles that hold integers\<close>

text \<open>
  A Number is an IEEE-754 double, with a significand of 53 bits. Every integer of
  magnitude up to \<open>2^53\<close> is a Number. The exact result of \<^verbatim>\<open>+\<close>, \<^verbatim>\<open>-\<close> or \<^verbatim>\<open>*\<close> on two
  Numbers is rounded to the nearest Number, a tie to the one with the even significand:
  beyond \<open>2^53\<close> the result is the nearest multiple of \<open>2^e\<close>, where \<open>e\<close> is the number
  of bits by which the exact result is longer than 53. The overflow to \<^verbatim>\<open>Infinity\<close>, beyond
  \<open>2^1024\<close>, is not modelled.
\<close>

definition round_double :: "int \<Rightarrow> int" where
  "round_double n =
     (if \<bar>n\<bar> \<le> 2 ^ 53 then n
      else (let m = \<bar>n\<bar>;
                e = nat (bitlen m - 53);
                q = m div 2 ^ e;
                r = m mod 2 ^ e;
                half = 2 ^ (e - 1);
                q' = (if half < r \<or> (r = half \<and> odd q) then q + 1 else q)
            in sgn n * (q' * 2 ^ e)))"

definition js_add :: "int \<Rightarrow> int \<Rightarrow> int" where
  "js_add a b = round_double (a + b)"

definition js_sub :: "int \<Rightarrow> int \<Rightarrow> int" where
  "js_sub a b = round_double (a - b)"

definition js_mul :: "int \<Rightarrow> int \<Rightarrow> int" where
  "js_mul a b = round_double (a * b)"

text \<open>The integer \<open>n\<close> is a finite Number: rounding leaves it as it is, and it is below the
  overflow. In JavaScript every value is one; among the integers of the model these are
  the ones a matrix can hold.\<close>

definition is_number :: "int \<Rightarrow> bool" where
  "is_number n = (round_double n = n \<and> \<bar>n\<bar> < 2 ^ 1024)"

subsection \<open>JavaScript maps in insertion order\<close>

type_synonym ('k, 'v) js_map = "('k \<times> 'v) list"

fun map_get :: "'k \<Rightarrow> ('k, 'v) js_map \<Rightarrow> 'v option" where
  "map_get k [] = None"
| "map_get k ((k', v') # m) = (if k' = k then Some v' else map_get k m)"

fun map_has :: "'k \<Rightarrow> ('k, 'v) js_map \<Rightarrow> bool" where
  "map_has k [] = False"
| "map_has k ((k', v') # m) = (if k' = k then True else map_has k m)"

fun map_set :: "'k \<Rightarrow> 'v \<Rightarrow> ('k, 'v) js_map \<Rightarrow> ('k, 'v) js_map" where
  "map_set k v [] = [(k, v)]"
| "map_set k v ((k', v') # m) = (if k' = k then (k, v) # m else (k', v') # map_set k v m)"

fun map_delete :: "'k \<Rightarrow> ('k, 'v) js_map \<Rightarrow> ('k, 'v) js_map" where
  "map_delete k [] = []"
| "map_delete k ((k', v') # m) = (if k' = k then map_delete k m else (k', v') # map_delete k m)"

subsection \<open>The class\<close>

text \<open>A thrown \<^verbatim>\<open>new Error(message)\<close>, and the \<^verbatim>\<open>TypeError\<close> of a method call on
  \<^verbatim>\<open>undefined\<close>.\<close>

datatype error = Error string | TypeError string

record SparseMatrix =
  rows :: int
  cols :: int
  elements :: "(int \<times> int, int) js_map"

text \<open>
  The constructor on an object \<^verbatim>\<open>{rows, cols}\<close>: it tests \<^verbatim>\<open>input.rows && input.cols\<close>,
  so a dimension \<open>0\<close> (falsy) is refused with \<^verbatim>\<open>Invalid input\<close>.
\<close>

definition new_SparseMatrix :: "int \<Rightarrow> int \<Rightarrow> error + SparseMatrix" where
  "new_SparseMatrix r c =
     (if r \<noteq> 0 \<and> c \<noteq> 0 then Inr \<lparr>rows = r, cols = c, elements = []\<rparr>
      else Inl (Error ''Invalid input''))"

text \<open>\<^verbatim>\<open>this.elements.get(key) || 0\<close>: an absent key (\<^verbatim>\<open>undefined\<close>) and a stored \<open>0\<close> both
  read as \<open>0\<close>.\<close>

definition getElement :: "SparseMatrix \<Rightarrow> int \<Rightarrow> int \<Rightarrow> int" where
  "getElement m row col =
     (case map_get (row, col) (elements m) of
        None \<Rightarrow> 0
      | Some v \<Rightarrow> (if v = 0 then 0 else v))"

definition setElement :: "SparseMatrix \<Rightarrow> int \<Rightarrow> int \<Rightarrow> int \<Rightarrow> SparseMatrix" where
  "setElement m row col v =
     (if v \<noteq> 0 then m\<lparr>elements := map_set (row, col) v (elements m)\<rparr>
      else m\<lparr>elements := map_delete (row, col) (elements m)\<rparr>)"

text \<open>The body of the double loop of \<^verbatim>\<open>add\<close> and of \<^verbatim>\<open>subtract\<close>, at one coordinate.\<close>

definition add_cell :: "SparseMatrix \<Rightarrow> SparseMatrix \<Rightarrow> int \<Rightarrow> int \<Rightarrow> SparseMatrix \<Rightarrow> SparseMatrix" where
  "add_cell this other row col result =
     (let sum = js_add (getElement this row col) (getElement other row col)
      in if sum \<noteq> 0 then setElement result row col sum else result)"

definition subtract_cell :: "SparseMatrix \<Rightarrow> SparseMatrix \<Rightarrow> int \<Rightarrow> int \<Rightarrow> SparseMatrix \<Rightarrow> SparseMatrix" where
  "subtract_cell this other row col result =
     (let diff = js_sub (getElement this row col) (getElement other row col)
      in if diff \<noteq> 0 then setElement result row col diff else result)"

text \<open>\<^verbatim>\<open>add\<close> scans \<^verbatim>\<open>row <= this.rows\<close> and \<^verbatim>\<open>col <= this.cols\<close>: both bounds inclusive.\<close>

definition add :: "SparseMatrix \<Rightarrow> SparseMatrix \<Rightarrow> error + SparseMatrix" where
  "add this other =
     (if rows this \<noteq> rows other \<or> cols this \<noteq> cols other
      then Inl (Error ''Matrix dimensions do not match for addition'')
      else case new_SparseMatrix (rows this) (cols this) of
        Inl e \<Rightarrow> Inl e
      | Inr result \<Rightarrow>
          Inr (fold (\<lambda>row. fold (\<lambda>col. add_cell this other row col) [0..cols this])
                 [0..rows this] result))"

text \<open>\<^verbatim>\<open>subtract\<close> scans \<^verbatim>\<open>row < this.rows\<close> and \<^verbatim>\<open>col < this.cols\<close>: both bounds exclusive.\<close>

definition subtract :: "SparseMatrix \<Rightarrow> SparseMatrix \<Rightarrow> error + SparseMatrix" where
  "subtract this other =
     (if rows this \<noteq> rows other \<or> cols this \<noteq> cols other
      then Inl (Error ''Matrix dimensions do not match for subtraction'')
      else case new_SparseMatrix (rows this) (cols this) of
        Inl e \<Rightarrow> Inl e
      | Inr result \<Rightarrow>
          Inr (fold (\<lambda>row. fold (\<lambda>col. subtract_cell this other row col) [0..cols this - 1])
                 [0..rows this - 1] result))"

subsection \<open>Multiplication\<close>

text \<open>
  The column index of \<^verbatim>\<open>other\<close>: a map from a column to the map from a row to the value,
  filled in the iteration order of \<^verbatim>\<open>other.elements\<close>.
\<close>

definition index_entry ::
  "(int \<times> int) \<times> int \<Rightarrow> (int, (int, int) js_map) js_map \<Rightarrow> (int, (int, int) js_map) js_map" where
  "index_entry e idx =
     (case e of ((row, col), v) \<Rightarrow>
        (let idx' = (if \<not> map_has col idx then map_set col [] idx else idx)
         in case map_get col idx' of
              None \<Rightarrow> idx'
            | Some column \<Rightarrow> map_set col (map_set row v column) idx'))"

definition columnIndexed :: "SparseMatrix \<Rightarrow> (int, (int, int) js_map) js_map" where
  "columnIndexed other = fold index_entry (elements other) []"

text \<open>
  The body of the inner loop, first half: the lookup in the column index and the
  accumulation into \<^verbatim>\<open>result\<close>. \<^verbatim>\<open>setElement\<close> is called only when the new value is not
  \<open>0\<close>.
\<close>

definition accumulate ::
  "(int, (int, int) js_map) js_map \<Rightarrow> int \<Rightarrow> int \<Rightarrow> int \<Rightarrow> int \<Rightarrow> SparseMatrix \<Rightarrow> SparseMatrix" where
  "accumulate idx row1 col1 value1 col2 result =
     (case map_get col2 idx of
        None \<Rightarrow> result
      | Some column \<Rightarrow>
          (case map_get col1 column of
             None \<Rightarrow> result
           | Some value2 \<Rightarrow>
               (let currentValue = getElement result row1 col2;
                    newValue = js_add currentValue (js_mul value1 value2)
                in if newValue \<noteq> 0 then setElement result row1 col2 newValue
                   else result)))"

text \<open>
  Second half: the progress report. The callback is an optional argument; when given it
  is called with \<^verbatim>\<open>operationsPerformed / totalOperations\<close> (here an exact rational) when
  \<^verbatim>\<open>operationsPerformed % 1000000 === 0\<close>. What the callback does is a change of the
  state \<open>obs\<close> of its observer.
\<close>

definition report_progress :: "(rat \<Rightarrow> 'o \<Rightarrow> 'o) option \<Rightarrow> int \<Rightarrow> int \<Rightarrow> 'o \<Rightarrow> 'o" where
  "report_progress progressCallback totalOperations operationsPerformed obs =
     (case progressCallback of
        None \<Rightarrow> obs
      | Some cb \<Rightarrow>
          (if operationsPerformed mod 1000000 = 0
           then cb (of_int operationsPerformed / of_int totalOperations) obs else obs))"

text \<open>The loop state is the result matrix, \<^verbatim>\<open>operationsPerformed\<close> and the observer's state.\<close>

definition multiply_step ::
  "(rat \<Rightarrow> 'o \<Rightarrow> 'o) option \<Rightarrow> (int, (int, int) js_map) js_map \<Rightarrow> int \<Rightarrow>
   int \<Rightarrow> int \<Rightarrow> int \<Rightarrow> int \<Rightarrow> SparseMatrix \<times> int \<times> 'o \<Rightarrow> SparseMatrix \<times> int \<times> 'o" where
  "multiply_step progressCallback idx totalOperations row1 col1 value1 col2 st =
     (case st of (result, operationsPerformed, obs) \<Rightarrow>
        (accumulate idx row1 col1 value1 col2 result,
         operationsPerformed + 1,
         report_progress progressCallback totalOperations (operationsPerformed + 1) obs))"

definition multiply_entry ::
  "(rat \<Rightarrow> 'o \<Rightarrow> 'o) option \<Rightarrow> (int, (int, int) js_map) js_map \<Rightarrow> int \<Rightarrow> int \<Rightarrow>
   (int \<times> int) \<times> int \<Rightarrow> SparseMatrix \<times> int \<times> 'o \<Rightarrow> SparseMatrix \<times> int \<times> 'o" where
  "multiply_entry progressCallback idx totalOperations otherCols e st =
     (case e of ((row1, col1), value1) \<Rightarrow>
        fold (multiply_step progressCallback idx totalOperations row1 col1 value1)
          [0..otherCols - 1] st)"

definition multiply ::
  "SparseMatrix \<Rightarrow> SparseMatrix \<Rightarrow> (rat \<Rightarrow> 'o \<Rightarrow> 'o) option \<Rightarrow> 'o \<Rightarrow> error + SparseMatrix \<times> 'o" where
  "multiply this other progressCallback obs =
     (if cols this \<noteq> rows other
      then Inl (Error ''Matrix dimensions are not compatible for multiplication'')
      else case new_SparseMatrix (rows this) (cols other) of
        Inl e \<Rightarrow> Inl e
      | Inr result \<Rightarrow>
          (let idx = columnIndexed other;
               totalOperations = int (length (elements this)) * cols other
           in case fold (multiply_entry progressCallback idx totalOperations (cols other))
                     (elements this) (result, 0, obs) of
                (result', ops, obs') \<Rightarrow> Inr (result', obs')))"

text \<open>A call with no callback argument.\<close>

definition multiply0 :: "SparseMatrix \<Rightarrow> SparseMatrix \<Rightarrow> error + SparseMatrix" where
  "multiply0 this other = map_sum id fst (multiply this other (None :: (rat \<Rightarrow> unit \<Rightarrow> unit) option) ())"

subsection \<open>The representation invariant\<close>

text \<open>
  A JavaScript map holds a key once, and \<^verbatim>\<open>setElement\<close>, the only writer, never stores
  \<open>0\<close>. Every matrix the class builds satisfies both.
\<close>

definition unique_keys :: "SparseMatrix \<Rightarrow> bool" where
  "unique_keys m = distinct (map fst (elements m))"

definition no_zero :: "SparseMatrix \<Rightarrow> bool" where
  "no_zero m = (\<forall>e \<in> set (elements m). snd e \<noteq> 0)"

definition well_formed :: "SparseMatrix \<Rightarrow> bool" where
  "well_formed m = (unique_keys m \<and> no_zero m)"

text \<open>A Number below \<open>10^21\<close> in magnitude: the ones a template literal prints in plain
  decimal digits.\<close>

definition decimal_number :: "int \<Rightarrow> bool" where
  "decimal_number n = (is_number n \<and> \<bar>n\<bar> < 10 ^ 21)"

text \<open>The dimensions, coordinates and values of a matrix are all such Numbers.\<close>

definition decimal_numbers :: "SparseMatrix \<Rightarrow> bool" where
  "decimal_numbers m =
     (decimal_number (rows m) \<and> decimal_number (cols m) \<and>
      (\<forall>e \<in> set (elements m).
         decimal_number (fst (fst e)) \<and> decimal_number (snd (fst e)) \<and> decimal_number (snd e)))"



subsection \<open>Text: \<^verbatim>\<open>toString\<close> and \<^verbatim>\<open>loadFromFile\<close>\<close>

text \<open>
  Strings are lists of 8-bit characters; the text format is ASCII. The white space of
  \<^verbatim>\<open>trim\<close> and \<^verbatim>\<open>parseInt\<close> is the ASCII part of JavaScript's: tab, line feed,
  vertical tab, form feed, carriage return and space.
\<close>

definition newline :: char where
  "newline = CHR 0x0A"

definition is_space :: "char \<Rightarrow> bool" where
  "is_space c = (c \<in> set [CHR 0x09, CHR 0x0A, CHR 0x0B, CHR 0x0C, CHR 0x0D, CHR 0x20])"

definition trim :: "string \<Rightarrow> string" where
  "trim s = rev (dropWhile is_space (rev (dropWhile is_space s)))"

definition startsWith :: "string \<Rightarrow> string \<Rightarrow> bool" where
  "startsWith s p = (take (length p) s = p)"

definition endsWith :: "string \<Rightarrow> string \<Rightarrow> bool" where
  "endsWith s p = (length p \<le> length s \<and> drop (length s - length p) s = p)"

text \<open>\<^verbatim>\<open>s.split(c)\<close> for a separator of one character: never empty, \<^verbatim>\<open>"".split(c)\<close> is
  \<^verbatim>\<open>[""]\<close>.\<close>

fun split_on :: "char \<Rightarrow> string \<Rightarrow> string list" where
  "split_on c [] = [[]]"
| "split_on c (x # xs) =
     (if x = c then [] # split_on c xs
      else (case split_on c xs of
              [] \<Rightarrow> [[x]]
            | w # ws \<Rightarrow> (x # w) # ws))"

text \<open>\<^verbatim>\<open>s.slice(1, -1)\<close>: from index 1 up to, not including, the last character.\<close>

definition slice_1_neg1 :: "string \<Rightarrow> string" where
  "slice_1_neg1 s = take (length s - 2) (drop 1 s)"

text \<open>The decimal text of an integer.\<close>

definition digit_char :: "nat \<Rightarrow> char" where
  "digit_char d = char_of (48 + d)"

function show_digits :: "int \<Rightarrow> string" where
  "show_digits n =
     (if n < 10 then [digit_char (nat n)]
      else show_digits (n div 10) @ [digit_char (nat (n mod 10))])"
  by pat_completeness auto
termination
  by (relation "measure nat") auto

declare show_digits.simps [simp del]

definition show_int :: "int \<Rightarrow> string" where
  "show_int i = (if i < 0 then CHR ''-'' # show_digits (- i) else show_digits i)"

text \<open>
  The text of a Number, as a template literal prints it (\<^verbatim>\<open>Number::toString\<close>). The
  digits printed are those of the shortest decimal \<open>s \<times> 10^j\<close> that rounds to the Number
  (of several, the closest to it; of two equally close, the even \<open>s\<close>). Up to \<open>2^53\<close>
  this is the integer itself. Below \<open>10^21\<close> the text is the digits of \<open>s\<close> followed by
  \<open>j\<close> zeros; from \<open>10^21\<close> on it is the exponent form \<^verbatim>\<open>d.ddde+x\<close>.
\<close>

definition shortest_candidates :: "int \<Rightarrow> nat \<Rightarrow> int list" where
  "shortest_candidates m k =
     (let p = 10 ^ (length (show_digits m) - k);
          lo = (m div p) * p;
          hi = lo + p
      in if m - lo < hi - m \<or> (m - lo = hi - m \<and> even (m div p)) then [lo, hi] else [hi, lo])"

definition shortest_decimal :: "int \<Rightarrow> int" where
  "shortest_decimal m =
     (case List.find (\<lambda>v. round_double v = m)
             (concat (map (shortest_candidates m) [1..<Suc (length (show_digits m))])) of
        None \<Rightarrow> m
      | Some v \<Rightarrow> v)"

definition strip_zeros :: "string \<Rightarrow> string" where
  "strip_zeros ds = rev (dropWhile (\<lambda>c. c = CHR ''0'') (rev ds))"

definition show_magnitude :: "int \<Rightarrow> string" where
  "show_magnitude m =
     (let ds = show_digits (shortest_decimal m)
      in if length ds \<le> 21 then ds
         else (case strip_zeros ds of
                 [] \<Rightarrow> ds
               | d # rest \<Rightarrow>
                   (if rest = [] then [d] else d # CHR ''.'' # rest)
                     @ ''e+'' @ show_digits (int (length ds) - 1)))"

definition show_number :: "int \<Rightarrow> string" where
  "show_number i =
     (if \<bar>i\<bar> \<le> 2 ^ 53 then show_int i
      else if i < 0 then CHR ''-'' # show_magnitude (- i)
      else show_magnitude i)"

text \<open>
  \<^verbatim>\<open>parseInt(s)\<close> with no radix: leading white space is skipped, then an optional sign,
  then \<^verbatim>\<open>0x\<close> or \<^verbatim>\<open>0X\<close> selects radix 16 (radix 10 otherwise), then the longest run of
  digits of that radix is read; with no digit the result is \<^verbatim>\<open>NaN\<close>, here \<open>None\<close>.
  The integer read is rounded to a Number.
\<close>

definition digit_value :: "char \<Rightarrow> nat option" where
  "digit_value c =
     (let n = of_char c :: nat
      in if 48 \<le> n \<and> n \<le> 57 then Some (n - 48)
         else if 97 \<le> n \<and> n \<le> 122 then Some (n - 87)
         else if 65 \<le> n \<and> n \<le> 90 then Some (n - 55)
         else None)"

definition is_digit :: "nat \<Rightarrow> char \<Rightarrow> bool" where
  "is_digit radix c = (case digit_value c of None \<Rightarrow> False | Some d \<Rightarrow> d < radix)"

definition digits_value :: "nat \<Rightarrow> string \<Rightarrow> int" where
  "digits_value radix ds =
     foldl (\<lambda>acc c. acc * int radix + (case digit_value c of None \<Rightarrow> 0 | Some d \<Rightarrow> int d)) 0 ds"

definition parseInt :: "string \<Rightarrow> int option" where
  "parseInt s =
     (let s1 = dropWhile is_space s;
          negative = startsWith s1 ''-'';
          s2 = (if startsWith s1 ''-'' \<or> startsWith s1 ''+'' then drop 1 s1 else s1);
          hex = (startsWith s2 ''0x'' \<or> startsWith s2 ''0X'');
          radix = (if hex then 16 else 10);
          s3 = (if hex then drop 2 s2 else s2);
          ds = takeWhile (is_digit radix) s3
      in if ds = [] then None
         else Some (round_double
                (if negative then - digits_value radix ds else digits_value radix ds)))"

text \<open>One line of the output of \<^verbatim>\<open>toString\<close>: \<^verbatim>\<open>`(${row}, ${col}, ${value})\n`\<close>, with
  \<^verbatim>\<open>row\<close> and \<^verbatim>\<open>col\<close> the two parts of the key.\<close>

definition entry_line :: "(int \<times> int) \<times> int \<Rightarrow> string" where
  "entry_line e =
     (case e of ((row, col), v) \<Rightarrow>
        ''('' @ show_number row @ '', '' @ show_number col @ '', '' @ show_number v @ '')''
          @ [newline])"

definition toString :: "SparseMatrix \<Rightarrow> string" where
  "toString m =
     trim (fold (\<lambda>e result. result @ entry_line e) (elements m)
             (''rows='' @ show_number (rows m) @ [newline] @
              ''cols='' @ show_number (cols m) @ [newline]))"

text \<open>\<^verbatim>\<open>content[i].split("=")[1]\<close>; \<^verbatim>\<open>parseInt(undefined)\<close> is \<^verbatim>\<open>NaN\<close>.\<close>

definition header_number :: "string \<Rightarrow> int option" where
  "header_number l = (case split_on CHR ''='' l of _ # x # _ \<Rightarrow> parseInt x | _ \<Rightarrow> None)"

text \<open>The loop of \<^verbatim>\<open>loadFromFile\<close> over the lines from index 2 on.\<close>

fun load_lines :: "string list \<Rightarrow> SparseMatrix \<Rightarrow> error + SparseMatrix" where
  "load_lines [] m = Inr m"
| "load_lines (l # ls) m =
     (let line = trim l
      in if line \<noteq> [] then
           (if startsWith line ''('' \<and> endsWith line '')'' then
              (let trimmedLine = slice_1_neg1 line;
                   parts = map trim (split_on CHR '','' trimmedLine)
               in if length parts \<noteq> 3 then Inl (Error ''Invalid element format'')
                  else (case (parseInt (parts ! 0), parseInt (parts ! 1), parseInt (parts ! 2)) of
                          (Some row, Some col, Some v) \<Rightarrow> load_lines ls (setElement m row col v)
                        | _ \<Rightarrow> Inl (Error ''Invalid numbers in element'')))
            else Inl (Error ''Invalid element format''))
         else load_lines ls m)"

text \<open>
  \<^verbatim>\<open>loadFromFile\<close> on the text of the file. \<open>Inr None\<close>: the load returns, but a header
  number did not parse, so that \<^verbatim>\<open>rows\<close> or \<^verbatim>\<open>cols\<close> is \<^verbatim>\<open>NaN\<close>, which \<^typ>\<open>int\<close>
  does not represent. A text of one line fails at \<^verbatim>\<open>content[1].startsWith\<close>.
\<close>

definition loadFromFile :: "string \<Rightarrow> error + SparseMatrix option" where
  "loadFromFile text =
     (case split_on newline text of
        [] \<Rightarrow> Inl (TypeError ''content[0] is undefined'')
      | l0 # rest \<Rightarrow>
          if \<not> startsWith l0 ''rows='' then Inl (Error ''Invalid file format'')
          else (case rest of
                  [] \<Rightarrow> Inl (TypeError ''content[1] is undefined'')
                | l1 # body \<Rightarrow>
                    if \<not> startsWith l1 ''cols='' then Inl (Error ''Invalid file format'')
                    else (case (header_number l0, header_number l1) of
                            (Some r, Some c) \<Rightarrow>
                              map_sum id Some (load_lines body \<lparr>rows = r, cols = c, elements = []\<rparr>)
                          | _ \<Rightarrow>
                              map_sum id (\<lambda>_. None)
                                (load_lines body \<lparr>rows = 0, cols = 0, elements = []\<rparr>))))"

subsection \<open>The second implementation, \<^verbatim>\<open>src/dsa/sparse_matrix/code/src/main.js\<close>\<close>

text \<open>
  Its constructor takes the two dimensions and checks nothing; its \<^verbatim>\<open>multiply\<close> scans
  both entry lists and writes every accumulated value through \<^verbatim>\<open>setElement\<close>, also a
  zero (the definition \<open>main_multiply\<close> below).
\<close>

definition main_add_entry :: "(int \<times> int) \<times> int \<Rightarrow> SparseMatrix \<Rightarrow> SparseMatrix" where
  "main_add_entry e result =
     (case e of ((row, col), v) \<Rightarrow>
        (let newValue = js_add (getElement result row col) v
         in setElement result row col newValue))"

text \<open>Its \<^verbatim>\<open>add\<close> copies the entries of \<^verbatim>\<open>this\<close> and merges those of \<^verbatim>\<open>other\<close>: no
  coordinate range is scanned.\<close>

definition main_add :: "SparseMatrix \<Rightarrow> SparseMatrix \<Rightarrow> error + SparseMatrix" where
  "main_add this other =
     (if cols this \<noteq> cols other \<or> rows this \<noteq> rows other
      then Inl (Error ''Matrices dimensions do not match for addition'')
      else Inr (fold main_add_entry (elements other)
                  (fold (\<lambda>e result. result\<lparr>elements := map_set (fst e) (snd e) (elements result)\<rparr>)
                     (elements this) \<lparr>rows = rows this, cols = cols this, elements = []\<rparr>)))"

definition main_multiply_pair ::
  "(int \<times> int) \<times> int \<Rightarrow> (int \<times> int) \<times> int \<Rightarrow> SparseMatrix \<Rightarrow> SparseMatrix" where
  "main_multiply_pair e1 e2 result =
     (case e1 of ((row1, col1), value1) \<Rightarrow>
      case e2 of ((row2, col2), value2) \<Rightarrow>
        if col1 = row2
        then (let newValue = js_add (getElement result row1 col2) (js_mul value1 value2)
              in setElement result row1 col2 newValue)
        else result)"

definition main_multiply :: "SparseMatrix \<Rightarrow> SparseMatrix \<Rightarrow> error + SparseMatrix" where
  "main_multiply this other =
     (if cols this \<noteq> rows other
      then Inl (Error ''Matrices dimensions do not match for multiplication'')
      else Inr (fold (\<lambda>e1. fold (main_multiply_pair e1) (elements other)) (elements this)
                  \<lparr>rows = rows this, cols = cols other, elements = []\<rparr>))"

subsection \<open>Example matrices\<close>

text \<open>The matrices of the scenario of the specification, built as a caller builds them.\<close>

definition scenario_A :: SparseMatrix where
  "scenario_A = setElement (setElement \<lparr>rows = 2, cols = 2, elements = []\<rparr> 0 0 1) 1 1 2"

definition scenario_B :: SparseMatrix where
  "scenario_B = setElement (setElement \<lparr>rows = 2, cols = 2, elements = []\<rparr> 0 0 3) 0 1 4"

text \<open>A \<open>1 \<times> 2\<close> row \<open>(1 1)\<close> and a \<open>2 \<times> 1\<close> column \<open>(1 -1)\<close>: their product is \<open>0\<close>.\<close>

definition cancel_A :: SparseMatrix where
  "cancel_A = \<lparr>rows = 1, cols = 2, elements = [((0, 0), 1), ((0, 1), 1)]\<rparr>"

definition cancel_B :: SparseMatrix where
  "cancel_B = \<lparr>rows = 2, cols = 1, elements = [((0, 0), 1), ((1, 0), - 1)]\<rparr>"

text \<open>The column \<open>(1 -1)\<close> as a sum of \<open>(1 0)\<close> and \<open>(0 -1)\<close>.\<close>

definition cancel_B1 :: SparseMatrix where
  "cancel_B1 = \<lparr>rows = 2, cols = 1, elements = [((0, 0), 1)]\<rparr>"

definition cancel_B2 :: SparseMatrix where
  "cancel_B2 = \<lparr>rows = 2, cols = 1, elements = [((1, 0), - 1)]\<rparr>"

text \<open>A \<open>2 \<times> 2\<close> matrix with one entry in row \<open>2\<close>, and the empty \<open>2 \<times> 2\<close> matrix.\<close>

definition edge_A :: SparseMatrix where
  "edge_A = \<lparr>rows = 2, cols = 2, elements = [((2, 0), 5)]\<rparr>"

text \<open>A \<open>2 \<times> 2\<close> matrix with one entry far outside its dimensions.\<close>

definition far_A :: SparseMatrix where
  "far_A = \<lparr>rows = 2, cols = 2, elements = [((5, 5), 7)]\<rparr>"

definition empty_2x2 :: SparseMatrix where
  "empty_2x2 = \<lparr>rows = 2, cols = 2, elements = []\<rparr>"

definition empty_matrix :: "int \<Rightarrow> int \<Rightarrow> SparseMatrix" where
  "empty_matrix r c = \<lparr>rows = r, cols = c, elements = []\<rparr>"



text \<open>A \<open>1 \<times> 1\<close> matrix that holds \<open>10^21\<close>.\<close>

definition big_M :: SparseMatrix where
  "big_M = \<lparr>rows = 1, cols = 1, elements = [((0, 0), 1000000000000000000000)]\<rparr>"

text \<open>A \<open>1 \<times> 1\<close> matrix with one entry: multiplied with an empty matrix of 1000000 columns
  it takes exactly 1000000 operations.\<close>

definition one_entry :: SparseMatrix where
  "one_entry = \<lparr>rows = 1, cols = 1, elements = [((0, 0), 1)]\<rparr>"

subsection \<open>The loop body of the dense scans, as one function\<close>

text \<open>Both \<^verbatim>\<open>add_cell\<close> and \<^verbatim>\<open>subtract_cell\<close> store a value \<open>f row col\<close> when it is not
  \<open>0\<close>; the lemmas about the double loop are proved once, for this shape.\<close>

definition cell_of :: "(int \<Rightarrow> int \<Rightarrow> int) \<Rightarrow> int \<times> int \<Rightarrow> SparseMatrix \<Rightarrow> SparseMatrix" where
  "cell_of f p result =
     (if f (fst p) (snd p) \<noteq> 0 then setElement result (fst p) (snd p) (f (fst p) (snd p)) else result)"

subsection \<open>Notions used in the proofs about the text format\<close>

text \<open>Decimal digits, and the characters of a printed integer.\<close>

definition is_dec :: "char \<Rightarrow> bool" where
  "is_dec c = (48 \<le> (of_char c :: nat) \<and> (of_char c :: nat) \<le> 57)"

definition is_num :: "char \<Rightarrow> bool" where
  "is_num c = (is_dec c \<or> c = CHR ''-'')"

text \<open>The integer whose decimal text is the text of a Number below \<open>10^21\<close>.\<close>

definition printed :: "int \<Rightarrow> int" where
  "printed n =
     (if \<bar>n\<bar> \<le> 2 ^ 53 then n
      else if n < 0 then - shortest_decimal (- n)
      else shortest_decimal n)"

text \<open>A line of \<^verbatim>\<open>toString\<close> without its line feed, the lines of a matrix, and lines
  joined with a line feed after each.\<close>

definition entry_body :: "(int \<times> int) \<times> int \<Rightarrow> string" where
  "entry_body e =
     (case e of ((row, col), v) \<Rightarrow>
        ''('' @ show_int (printed row) @ '', '' @ show_int (printed col) @ '', '' @
        show_int (printed v) @ '')'')"

definition lines_of :: "SparseMatrix \<Rightarrow> string list" where
  "lines_of m =
     (''rows='' @ show_int (printed (rows m))) # (''cols='' @ show_int (printed (cols m))) #
     map entry_body (elements m)"

definition unlines :: "string list \<Rightarrow> string" where
  "unlines ls = concat (map (\<lambda>l. l @ [newline]) ls)"

section \<open>Lemmas\<close>

subsection \<open>Numbers\<close>

lemma round_double_small: "\<bar>n\<bar> \<le> 2 ^ 53 \<Longrightarrow> round_double n = n"
  by (simp add: round_double_def)

lemma is_number_small: "\<bar>n\<bar> \<le> 2 ^ 53 \<Longrightarrow> is_number n"
  by (simp add: is_number_def round_double_small)

lemma is_number_0 [simp]: "is_number 0"
  by (simp add: is_number_small)

lemma round_double_number: "is_number n \<Longrightarrow> round_double n = n"
  by (simp add: is_number_def)

lemma js_add_exact: "is_number (a + b) \<Longrightarrow> js_add a b = a + b"
  by (simp add: js_add_def round_double_number)

lemma js_add_commute: "js_add a b = js_add b a"
  by (simp add: js_add_def add.commute)

lemma round_double_minus: "round_double (- n) = - round_double n"
  by (simp add: round_double_def Let_def)

subsection \<open>Maps\<close>

lemma map_get_map_of: "map_get k m = map_of m k"
  by (induction m) auto

lemma map_has_keys: "map_has k m \<longleftrightarrow> k \<in> fst ` set m"
  by (induction m) auto

lemma map_set_update: "map_set k v m = AList.update k v m"
  by (induction m) auto

lemma map_delete_delete: "map_delete k m = AList.delete k m"
  by (induction m) auto

lemma map_get_set: "map_get k' (map_set k v m) = (if k' = k then Some v else map_get k' m)"
  by (induction m) auto

lemma map_get_delete: "map_get k' (map_delete k m) = (if k' = k then None else map_get k' m)"
  by (induction m) auto

lemma keys_map_set: "fst ` set (map_set k v m) = insert k (fst ` set m)"
  by (simp add: map_set_update dom_update)

lemma keys_map_delete: "fst ` set (map_delete k m) = fst ` set m - {k}"
  by (simp add: map_delete_delete delete_conv' flip: dom_map_of_conv_image_fst)

lemma distinct_map_set: "distinct (map fst m) \<Longrightarrow> distinct (map fst (map_set k v m))"
  by (simp add: map_set_update distinct_update)

lemma distinct_map_delete: "distinct (map fst m) \<Longrightarrow> distinct (map fst (map_delete k m))"
  by (simp add: map_delete_delete distinct_delete)

lemma map_get_None: "map_get k m = None \<longleftrightarrow> k \<notin> fst ` set m"
  by (simp add: map_get_map_of map_of_eq_None_iff)

lemma filter_key_map_delete: "filter (\<lambda>e. fst e = k) (map_delete k m) = []"
  by (induction m) auto

lemma set_map_set: "e \<in> set (map_set k v m) \<Longrightarrow> e = (k, v) \<or> e \<in> set m"
  by (induction m) (auto split: if_splits)

lemma set_map_delete: "set (map_delete k m) \<subseteq> set m"
  by (induction m) (auto split: if_splits)

lemma map_set_fresh: "k \<notin> fst ` set m \<Longrightarrow> map_set k v m = m @ [(k, v)]"
  by (induction m) auto

subsection \<open>\<^verbatim>\<open>setElement\<close> keeps the invariant and the dimensions\<close>

lemma setElement_dims [simp]:
  "rows (setElement m r c v) = rows m" "cols (setElement m r c v) = cols m"
  by (simp_all add: setElement_def)

lemma setElement_unique_keys: "unique_keys m \<Longrightarrow> unique_keys (setElement m r c v)"
  by (simp add: unique_keys_def setElement_def distinct_map_set distinct_map_delete)

lemma setElement_no_zero: "no_zero m \<Longrightarrow> no_zero (setElement m r c v)"
proof (cases "v = 0")
  case True
  assume "no_zero m"
  with True show ?thesis
    using set_map_delete[of "(r, c)" "elements m"] by (auto simp: no_zero_def setElement_def)
next
  case False
  assume "no_zero m"
  with False show ?thesis
    by (auto simp: no_zero_def setElement_def dest!: set_map_set)
qed

lemma setElement_well_formed: "well_formed m \<Longrightarrow> well_formed (setElement m r c v)"
  by (simp add: well_formed_def setElement_unique_keys setElement_no_zero)

lemma map_get_setElement:
  "map_get k (elements (setElement m r c v)) =
     (if k = (r, c) then (if v \<noteq> 0 then Some v else None) else map_get k (elements m))"
  by (simp add: setElement_def map_get_set map_get_delete)

lemma getElement_alt:
  "getElement m r c = (case map_get (r, c) (elements m) of None \<Rightarrow> 0 | Some v \<Rightarrow> v)"
  by (auto simp: getElement_def split: option.splits)

subsection \<open>The dense double loop\<close>

lemma fold_nested_product:
  assumes "\<And>r c. g r c = h (r, c)"
  shows "fold (\<lambda>r. fold (g r) cs) rs x = fold h (List.product rs cs) x"
proof -
  have g: "\<And>r. g r = (\<lambda>c. h (r, c))"
    by (rule ext) (simp add: assms)
  show ?thesis
    by (induction rs arbitrary: x) (simp_all add: fold_map comp_def g)
qed

lemma scan_dims [simp]:
  "rows (fold (cell_of f) ps res) = rows res" "cols (fold (cell_of f) ps res) = cols res"
  by (induction ps arbitrary: res; simp add: cell_of_def)+

lemma scan_well_formed: "well_formed res \<Longrightarrow> well_formed (fold (cell_of f) ps res)"
  by (induction ps arbitrary: res) (simp_all add: cell_of_def setElement_well_formed)

lemma map_get_cell_of:
  "map_get k (elements (cell_of f p res)) =
     (if k = p \<and> f (fst p) (snd p) \<noteq> 0 then Some (f (fst p) (snd p)) else map_get k (elements res))"
  by (cases p) (simp add: cell_of_def map_get_setElement)

lemma scan_get:
  "map_get k (elements (fold (cell_of f) ps res)) =
     (if k \<in> set ps \<and> f (fst k) (snd k) \<noteq> 0 then Some (f (fst k) (snd k)) else map_get k (elements res))"
  by (induction ps arbitrary: res) (auto simp: map_get_cell_of)

lemma add_cell_cell_of:
  "add_cell A B r c = cell_of (\<lambda>r c. js_add (getElement A r c) (getElement B r c)) (r, c)"
  by (simp add: add_cell_def cell_of_def fun_eq_iff Let_def)

lemma subtract_cell_cell_of:
  "subtract_cell A B r c = cell_of (\<lambda>r c. js_sub (getElement A r c) (getElement B r c)) (r, c)"
  by (simp add: subtract_cell_def cell_of_def fun_eq_iff Let_def)

lemma add_Inr:
  "add A B = Inr R \<longleftrightarrow>
     rows A = rows B \<and> cols A = cols B \<and> rows A \<noteq> 0 \<and> cols A \<noteq> 0 \<and>
     R = fold (cell_of (\<lambda>r c. js_add (getElement A r c) (getElement B r c)))
           (List.product [0..rows A] [0..cols A]) \<lparr>rows = rows A, cols = cols A, elements = []\<rparr>"
  by (auto simp: add_def new_SparseMatrix_def fold_nested_product[of "add_cell A B", OF add_cell_cell_of])

lemma subtract_Inr:
  "subtract A B = Inr R \<longleftrightarrow>
     rows A = rows B \<and> cols A = cols B \<and> rows A \<noteq> 0 \<and> cols A \<noteq> 0 \<and>
     R = fold (cell_of (\<lambda>r c. js_sub (getElement A r c) (getElement B r c)))
           (List.product [0..rows A - 1] [0..cols A - 1]) \<lparr>rows = rows A, cols = cols A, elements = []\<rparr>"
  by (auto simp: subtract_def new_SparseMatrix_def fold_nested_product[of "subtract_cell A B", OF subtract_cell_cell_of])

lemma empty_well_formed: "well_formed \<lparr>rows = r, cols = c, elements = []\<rparr>"
  by (simp add: well_formed_def unique_keys_def no_zero_def)

lemma add_result:
  assumes "add A B = Inr R"
  shows "rows R = rows A" "cols R = cols A" "well_formed R"
    "map_get (r, c) (elements R) =
       (if 0 \<le> r \<and> r \<le> rows A \<and> 0 \<le> c \<and> c \<le> cols A \<and>
           js_add (getElement A r c) (getElement B r c) \<noteq> 0
        then Some (js_add (getElement A r c) (getElement B r c)) else None)"
proof -
  from assms have R: "R = fold (cell_of (\<lambda>r c. js_add (getElement A r c) (getElement B r c)))
           (List.product [0..rows A] [0..cols A]) \<lparr>rows = rows A, cols = cols A, elements = []\<rparr>"
    by (simp add: add_Inr)
  show "rows R = rows A" "cols R = cols A"
    by (simp_all add: R)
  show "well_formed R"
    unfolding R by (rule scan_well_formed) (rule empty_well_formed)
  show "map_get (r, c) (elements R) =
       (if 0 \<le> r \<and> r \<le> rows A \<and> 0 \<le> c \<and> c \<le> cols A \<and>
           js_add (getElement A r c) (getElement B r c) \<noteq> 0
        then Some (js_add (getElement A r c) (getElement B r c)) else None)"
    by (simp add: R scan_get)
qed

lemma subtract_result:
  assumes "subtract A B = Inr R"
  shows "rows R = rows A" "cols R = cols A" "well_formed R"
    "map_get (r, c) (elements R) =
       (if 0 \<le> r \<and> r < rows A \<and> 0 \<le> c \<and> c < cols A \<and>
           js_sub (getElement A r c) (getElement B r c) \<noteq> 0
        then Some (js_sub (getElement A r c) (getElement B r c)) else None)"
proof -
  from assms have R: "R = fold (cell_of (\<lambda>r c. js_sub (getElement A r c) (getElement B r c)))
           (List.product [0..rows A - 1] [0..cols A - 1]) \<lparr>rows = rows A, cols = cols A, elements = []\<rparr>"
    by (simp add: subtract_Inr)
  show "rows R = rows A" "cols R = cols A"
    by (simp_all add: R)
  show "well_formed R"
    unfolding R by (rule scan_well_formed) (rule empty_well_formed)
  have "r \<le> rows A - 1 \<longleftrightarrow> r < rows A" "c \<le> cols A - 1 \<longleftrightarrow> c < cols A"
    by auto
  then show "map_get (r, c) (elements R) =
       (if 0 \<le> r \<and> r < rows A \<and> 0 \<le> c \<and> c < cols A \<and>
           js_sub (getElement A r c) (getElement B r c) \<noteq> 0
        then Some (js_sub (getElement A r c) (getElement B r c)) else None)"
    by (simp add: R scan_get)
qed

lemma add_succeeds:
  "rows A = rows B \<Longrightarrow> cols A = cols B \<Longrightarrow> rows A \<noteq> 0 \<Longrightarrow> cols A \<noteq> 0 \<Longrightarrow> \<exists>R. add A B = Inr R"
  by (simp add: add_def new_SparseMatrix_def)



lemma entry_map_get: "unique_keys m \<Longrightarrow> (k, v) \<in> set (elements m) \<longleftrightarrow> map_get k (elements m) = Some v"
  by (simp add: unique_keys_def map_get_map_of)

subsection \<open>Counting the operations of \<^verbatim>\<open>multiply\<close>\<close>

lemma succ_div_mod:
  fixes m n :: int
  assumes "0 < m"
  shows "(n + 1) mod m = 0 \<Longrightarrow> (n + 1) div m = n div m + 1"
    and "(n + 1) mod m \<noteq> 0 \<Longrightarrow> (n + 1) div m = n div m"
proof -
  have r: "0 \<le> n mod m" "n mod m < m"
    using assms by simp_all
  have n: "n + 1 = n div m * m + (n mod m + 1)"
    by simp
  show "(n + 1) div m = n div m + 1" if "(n + 1) mod m = 0"
  proof (cases "n mod m + 1 = m")
    case True
    then have "n + 1 = (n div m + 1) * m"
      using n by (simp add: algebra_simps)
    then show ?thesis using assms by simp
  next
    case False
    then have lt: "n mod m + 1 < m" using r by simp
    have "(n + 1) mod m = (n div m * m + (n mod m + 1)) mod m"
      by (rule arg_cong[where f = "\<lambda>x. x mod m", OF n])
    also have "\<dots> = (n mod m + 1) mod m"
      by (simp only: mod_mult_self3)
    also have "\<dots> = n mod m + 1"
      using lt r by simp
    finally show ?thesis using that r by simp
  qed
  show "(n + 1) div m = n div m" if "(n + 1) mod m \<noteq> 0"
  proof (cases "n mod m + 1 = m")
    case True
    then have "n + 1 = (n div m + 1) * m"
      using n by (simp add: algebra_simps)
    then have "(n + 1) mod m = 0" by simp
    with that show ?thesis by simp
  next
    case False
    then have lt: "n mod m + 1 < m" using r by simp
    have "(n + 1) div m = (n div m * m + (n mod m + 1)) div m"
      by (rule arg_cong[where f = "\<lambda>x. x div m", OF n])
    also have "\<dots> = n div m + (n mod m + 1) div m"
      using assms by (simp only: div_mult_self3)
    also have "\<dots> = n div m"
      using lt r by simp
    finally show ?thesis .
  qed
qed

lemma multiples_upto:
  fixes m n :: int
  assumes "0 < m" "0 \<le> n"
  shows "filter (\<lambda>k. k mod m = 0) [1..n] = map (\<lambda>j. j * m) [1..n div m]"
  using assms(2)
proof (induction n rule: int_ge_induct)
  case base
  then show ?case using assms(1) by simp
next
  case (step n)
  have app: "[1..n + 1] = [1..n] @ [n + 1]"
    using step.hyps by (simp add: upto_rec2)
  show ?case
  proof (cases "(n + 1) mod m = 0")
    case True
    then have d: "(n + 1) div m = n div m + 1"
      using succ_div_mod(1)[OF assms(1)] by simp
    have e: "(n div m + 1) * m = n + 1"
      using True d by (metis div_mult_mod_eq add.right_neutral)
    have "0 \<le> n div m" using step.hyps assms(1) by (simp add: pos_imp_zdiv_nonneg_iff)
    then have "[1..n div m + 1] = [1..n div m] @ [n div m + 1]"
      by (simp add: upto_rec2)
    with True step.IH d e show ?thesis
      by (simp add: app)
  next
    case False
    then have "(n + 1) div m = n div m"
      using succ_div_mod(2)[OF assms(1)] by simp
    with False step.IH show ?thesis
      by (simp add: app)
  qed
qed

lemma upto_append:
  fixes n a b :: int
  assumes "0 \<le> a" "0 \<le> b"
  shows "[n + 1..n + a + b] = [n + 1..n + a] @ [n + a + 1..n + a + b]"
proof (cases "a = 0")
  case True
  then show ?thesis by simp
next
  case False
  then have "n + 1 \<le> n + a" "n + a \<le> n + a + b" using assms by simp_all
  then show ?thesis by (rule upto_split2)
qed

lemma multiply_step_eq:
  "multiply_step cb idx T r c v col2 (res, n, obs) =
     (accumulate idx r c v col2 res, n + 1, report_progress cb T (n + 1) obs)"
  by (simp add: multiply_step_def)

lemma inner_fold:
  "fold (multiply_step cb idx T r c v) cs (res, n, obs) =
     (fold (accumulate idx r c v) cs res, n + int (length cs),
      fold (report_progress cb T) [n + 1..n + int (length cs)] obs)"
proof (induction cs arbitrary: res n obs)
  case Nil
  then show ?case by simp
next
  case (Cons x xs)
  have "[n + 1..n + int (length (x # xs))] = (n + 1) # [n + 1 + 1..n + int (length (x # xs))]"
    by (rule upto_rec1) simp
  moreover have len: "n + int (length (x # xs)) = n + 1 + int (length xs)"
    by simp
  ultimately have up: "[n + 1..n + 1 + int (length xs)] = (n + 1) # [n + 1 + 1..n + 1 + int (length xs)]"
    by (simp only:)
  have "fold (multiply_step cb idx T r c v) (x # xs) (res, n, obs) =
      fold (multiply_step cb idx T r c v) xs
        (accumulate idx r c v x res, n + 1, report_progress cb T (n + 1) obs)"
    by (simp only: fold_simps multiply_step_eq)
  also have "\<dots> = (fold (accumulate idx r c v) xs (accumulate idx r c v x res),
      n + 1 + int (length xs),
      fold (report_progress cb T) [n + 1 + 1..n + 1 + int (length xs)] (report_progress cb T (n + 1) obs))"
    by (rule Cons.IH)
  also have "\<dots> = (fold (accumulate idx r c v) (x # xs) res, n + int (length (x # xs)),
      fold (report_progress cb T) [n + 1..n + int (length (x # xs))] obs)"
    unfolding len up by (simp only: fold_simps)
  finally show ?case .
qed

lemma outer_fold:
  "fold (multiply_entry cb idx T oc) es (res, n, obs) =
     (fold (\<lambda>e. case e of ((r, c), v) \<Rightarrow> fold (accumulate idx r c v) [0..oc - 1]) es res,
      n + int (length es) * max 0 oc,
      fold (report_progress cb T) [n + 1..n + int (length es) * max 0 oc] obs)"
proof (induction es arbitrary: res n obs)
  case Nil
  then show ?case by simp
next
  case (Cons e es)
  obtain r c v where e: "e = ((r, c), v)" by (cases e) auto
  define L where "L = max 0 oc"
  define acc where "acc = (\<lambda>e. case e of ((r, c), v) \<Rightarrow> fold (accumulate idx r c v) [0..oc - 1])"
  have L: "int (length [0..oc - 1]) = L" by (simp add: L_def)
  have L0: "0 \<le> L" by (simp add: L_def)
  have len: "n + int (length (e # es)) * L = n + L + int (length es) * L"
    by (simp add: algebra_simps)
  have split: "[n + 1..n + L + int (length es) * L]
      = [n + 1..n + L] @ [n + L + 1..n + L + int (length es) * L]"
    by (rule upto_append) (simp_all add: L0)
  have step: "multiply_entry cb idx T oc e (res, n, obs) =
      (acc e res, n + L, fold (report_progress cb T) [n + 1..n + L] obs)"
    unfolding e multiply_entry_def acc_def prod.case inner_fold L ..
  have "fold (multiply_entry cb idx T oc) (e # es) (res, n, obs) =
      fold (multiply_entry cb idx T oc) es
        (acc e res, n + L, fold (report_progress cb T) [n + 1..n + L] obs)"
    by (simp only: fold_simps step)
  also have "\<dots> = (fold acc es (acc e res), n + L + int (length es) * L,
      fold (report_progress cb T) [n + L + 1..n + L + int (length es) * L]
        (fold (report_progress cb T) [n + 1..n + L] obs))"
    unfolding acc_def L_def by (rule Cons.IH)
  also have "\<dots> = (fold acc (e # es) res, n + int (length (e # es)) * L,
      fold (report_progress cb T) [n + 1..n + int (length (e # es)) * L] obs)"
    unfolding len split by (simp only: fold_simps fold_append comp_def)
  finally show ?case
    unfolding acc_def L_def .
qed

lemma report_None: "fold (report_progress None T) ks obs = obs"
  by (induction ks) (simp_all add: report_progress_def)

lemma report_Some:
  "fold (report_progress (Some cb) T) ks obs =
     fold cb (map (\<lambda>k. of_int k / of_int T) (filter (\<lambda>k. k mod 1000000 = 0) ks)) obs"
  by (induction ks arbitrary: obs) (simp_all add: report_progress_def)

lemma multiply_unfold:
  "multiply A B cb obs =
     (if cols A \<noteq> rows B
      then Inl (Error ''Matrix dimensions are not compatible for multiplication'')
      else case new_SparseMatrix (rows A) (cols B) of
        Inl e \<Rightarrow> Inl e
      | Inr result \<Rightarrow>
          Inr (fold (\<lambda>e. case e of ((r, c), v) \<Rightarrow> fold (accumulate (columnIndexed B) r c v) [0..cols B - 1])
                 (elements A) result,
               fold (report_progress cb (int (length (elements A)) * cols B))
                 [1..int (length (elements A)) * max 0 (cols B)] obs))"
  by (simp add: multiply_def Let_def outer_fold split: sum.splits)

lemma reports_of_multiply:
  "fold (report_progress (Some cb) (int len * oc)) [1..int len * max 0 oc] obs =
     fold cb (map (\<lambda>j. of_int (j * 1000000) / of_int (int len * oc)) [1..int len * oc div 1000000]) obs"
proof (cases "0 < oc")
  case True
  then have m: "max 0 oc = oc" by simp
  have "0 \<le> int len * oc" using True by simp
  then show ?thesis
    unfolding m report_Some
    by (simp add: multiples_upto[of 1000000] comp_def)
next
  case False
  then have "int len * oc \<le> 0" by (simp add: mult_nonneg_nonpos)
  then have "int len * oc div 1000000 \<le> 0"
    by (simp add: div_nonpos_pos_le0)
  then have "[1..int len * oc div 1000000] = []" by simp
  moreover have "[1..int len * max 0 oc] = []" using False by simp
  ultimately show ?thesis by simp
qed


lemma multiply_succeeds:
  "cols A = rows B \<Longrightarrow> rows A \<noteq> 0 \<Longrightarrow> cols B \<noteq> 0 \<Longrightarrow> \<exists>R obs'. multiply A B cb obs = Inr (R, obs')"
  by (simp add: multiply_unfold new_SparseMatrix_def)

subsection \<open>Printing and parsing integers\<close>

lemma is_dec_digit_char: "d < 10 \<Longrightarrow> is_dec (digit_char d)"
  by (simp add: is_dec_def digit_char_def)

lemma digit_value_digit_char: "d < 10 \<Longrightarrow> digit_value (digit_char d) = Some d"
  by (simp add: digit_value_def digit_char_def Let_def)

lemma is_dec_not_special:
  assumes "is_dec c"
  shows "\<not> is_space c" "c \<noteq> newline" "c \<noteq> CHR '',''" "c \<noteq> CHR ''=''" "c \<noteq> CHR ''-''"
    "c \<noteq> CHR ''+''" "c \<noteq> CHR ''x''" "c \<noteq> CHR ''X''" "c \<noteq> CHR ''(''" "c \<noteq> CHR '')''"
  using assms by (auto simp: is_dec_def is_space_def newline_def)

lemma is_dec_is_digit: "is_dec c \<Longrightarrow> is_digit 10 c"
  by (auto simp: is_dec_def is_digit_def digit_value_def Let_def)

lemma show_digits_dec: "\<forall>c \<in> set (show_digits n). is_dec c"
proof (induction n rule: show_digits.induct)
  case (1 n)
  show ?case
  proof (cases "n < 10")
    case True
    then show ?thesis by (subst show_digits.simps) (simp add: is_dec_digit_char)
  next
    case False
    with 1 show ?thesis by (subst show_digits.simps) (simp add: is_dec_digit_char)
  qed
qed

lemma show_digits_nonempty: "show_digits n \<noteq> []"
  by (subst show_digits.simps) simp

lemma digits_value_snoc:
  "digits_value radix (ds @ [c]) =
     digits_value radix ds * int radix + (case digit_value c of None \<Rightarrow> 0 | Some d \<Rightarrow> int d)"
  by (simp add: digits_value_def)

lemma digits_value_show_digits: "0 \<le> n \<Longrightarrow> digits_value 10 (show_digits n) = n"
proof (induction n rule: show_digits.induct)
  case (1 n)
  show ?case
  proof (cases "n < 10")
    case True
    with "1.prems" show ?thesis
      by (subst show_digits.simps) (simp add: digits_value_def digit_value_digit_char)
  next
    case False
    then have "digits_value 10 (show_digits (n div 10)) = n div 10"
      using "1.IH" "1.prems" by simp
    with False show ?thesis
      by (subst show_digits.simps) (simp add: digits_value_snoc digit_value_digit_char)
  qed
qed

lemma startsWith_set: "startsWith s p \<Longrightarrow> set p \<subseteq> set s"
  unfolding startsWith_def by (metis set_take_subset)

lemma startsWith_append [simp]: "startsWith (p @ s) p"
  by (simp add: startsWith_def)

lemma startsWith_Cons [simp]: "startsWith (c # s) [c]"
  by (simp add: startsWith_def)

lemma dropWhile_space_id: "s \<noteq> [] \<Longrightarrow> \<not> is_space (hd s) \<Longrightarrow> dropWhile is_space s = s"
  by (cases s) simp_all

lemma not_startsWith_dec:
  assumes "\<forall>c \<in> set ds. is_dec c" and "c \<in> set p" and "\<not> is_dec c"
  shows "\<not> startsWith ds p"
proof
  assume "startsWith ds p"
  then have "set p \<subseteq> set ds" by (rule startsWith_set)
  with assms show False by blast
qed

lemma parseInt_digits:
  assumes "ds \<noteq> []" and "\<forall>c \<in> set ds. is_dec c"
  shows "parseInt ds = Some (round_double (digits_value 10 ds))"
    and "parseInt (CHR ''-'' # ds) = Some (round_double (- digits_value 10 ds))"
proof -
  have hd: "is_dec (hd ds)" using assms by simp
  have nosp: "dropWhile is_space ds = ds"
    using assms(1) hd by (simp add: dropWhile_space_id is_dec_not_special)
  have nosign: "\<not> startsWith ds ''-''" "\<not> startsWith ds ''+''"
    by (rule not_startsWith_dec[OF assms(2), of "CHR ''-''"], simp, simp add: is_dec_def)
      (rule not_startsWith_dec[OF assms(2), of "CHR ''+''"], simp, simp add: is_dec_def)
  have nohex: "\<not> startsWith ds ''0x''" "\<not> startsWith ds ''0X''"
    by (rule not_startsWith_dec[OF assms(2), of "CHR ''x''"], simp, simp add: is_dec_def)
      (rule not_startsWith_dec[OF assms(2), of "CHR ''X''"], simp, simp add: is_dec_def)
  have all: "takeWhile (is_digit 10) ds = ds"
    using assms(2) by (simp add: is_dec_is_digit)
  show "parseInt ds = Some (round_double (digits_value 10 ds))"
    by (simp add: parseInt_def nosp nosign nohex all assms(1))
  have "\<not> is_space CHR ''-''" by (simp add: is_space_def)
  then show "parseInt (CHR ''-'' # ds) = Some (round_double (- digits_value 10 ds))"
    by (simp add: parseInt_def nosign nohex all assms(1))
qed

lemma parseInt_show_int: "parseInt (show_int i) = Some (round_double i)"
  by (simp add: show_int_def parseInt_digits show_digits_nonempty show_digits_dec
      digits_value_show_digits)

text \<open>The number of digits and the magnitude.\<close>

lemma show_digits_bound: "0 \<le> n \<Longrightarrow> n < 10 ^ length (show_digits n)"
proof (induction n rule: show_digits.induct)
  case (1 n)
  show ?case
  proof (cases "n < 10")
    case True
    then show ?thesis by (subst show_digits.simps) simp
  next
    case False
    then have "n div 10 < 10 ^ length (show_digits (n div 10))"
      using "1.IH" "1.prems" by simp
    then have "n < 10 * 10 ^ length (show_digits (n div 10))"
      by linarith
    with False show ?thesis by (subst show_digits.simps) simp
  qed
qed

lemma show_digits_length: "0 \<le> n \<Longrightarrow> n < 10 ^ k \<Longrightarrow> 0 < k \<Longrightarrow> length (show_digits n) \<le> k"
proof (induction n arbitrary: k rule: show_digits.induct)
  case (1 n)
  show ?case
  proof (cases "n < 10")
    case True
    with "1.prems" show ?thesis by (subst show_digits.simps) simp
  next
    case False
    obtain j where k: "k = Suc j" using "1.prems"(3) by (cases k) auto
    have "j \<noteq> 0"
    proof
      assume "j = 0"
      with "1.prems"(2) have "n < 10" by (simp add: k)
      with False show False by simp
    qed
    moreover have "n div 10 < 10 ^ j" using "1.prems"(2) by (simp add: k)
    ultimately have "length (show_digits (n div 10)) \<le> j"
      using "1.IH"[of j] False "1.prems"(1) by simp
    with False show ?thesis by (subst show_digits.simps) (simp add: k)
  qed
qed

text \<open>The candidates of the search for the shortest decimal have no more digits than the
  Number.\<close>

lemma find_Some_in: "List.find P xs = Some x \<Longrightarrow> P x \<and> x \<in> set xs"
  by (auto simp: find_Some_iff)

lemma set_if_pair: "set (if c then [a, b] else [b, a]) = {a, b}"
  by auto

lemma shortest_candidates_set:
  "set (shortest_candidates m k) =
     (let p = 10 ^ (length (show_digits m) - k); lo = m div p * p in {lo, lo + p})"
  by (simp only: shortest_candidates_def Let_def set_if_pair)

lemma shortest_candidates_bounds:
  assumes "0 \<le> m" and "1 \<le> k" and "k \<le> length (show_digits m)"
    and "v \<in> set (shortest_candidates m k)"
  shows "0 \<le> v \<and> v \<le> 10 ^ length (show_digits m)"
proof -
  define N where "N = length (show_digits m)"
  define p :: int where "p = 10 ^ (N - k)"
  have p: "0 < p" by (simp add: p_def)
  have "(10::int) ^ N = 10 ^ (k + (N - k))"
    using assms(3) by (simp add: N_def)
  then have pow: "(10::int) ^ N = 10 ^ k * p"
    by (simp only: power_add p_def)
  have mN: "m < 10 ^ N"
    using show_digits_bound[OF assms(1)] by (simp add: N_def)
  then have m: "m < 10 ^ k * p"
    by (simp only: pow)
  have "m div p * p + m mod p = m" by simp
  moreover have "0 \<le> m mod p" using p by simp
  ultimately have le: "m div p * p \<le> m" by linarith
  have "0 \<le> m div p" using assms(1) p by (simp add: pos_imp_zdiv_nonneg_iff)
  then have lo0: "0 \<le> m div p * p" using p by simp
  have "m div p < 10 ^ k"
  proof (rule ccontr)
    assume "\<not> m div p < 10 ^ k"
    then have "10 ^ k * p \<le> m div p * p"
      using p by (simp add: mult_right_mono)
    with le m show False by linarith
  qed
  then have "m div p + 1 \<le> 10 ^ k" by simp
  then have "(m div p + 1) * p \<le> 10 ^ k * p"
    using p by (simp only: mult_right_mono less_imp_le)
  moreover have "(m div p + 1) * p = m div p * p + p"
    by (simp add: algebra_simps)
  ultimately have hi: "m div p * p + p \<le> 10 ^ N"
    by (simp only: pow)
  have "v \<in> {m div p * p, m div p * p + p}"
    using assms(4) unfolding shortest_candidates_set Let_def p_def N_def .
  then have "v = m div p * p \<or> v = m div p * p + p"
    by blast
  then have "0 \<le> v \<and> v \<le> 10 ^ N"
    using lo0 hi le mN p by (elim disjE) linarith+
  then show ?thesis by (simp only: N_def)
qed

lemma round_double_1e21: "round_double (10 ^ 21) = 10 ^ 21"
  by code_simp

lemma shortest_decimal_cases:
  "shortest_decimal m = m \<or>
   (round_double (shortest_decimal m) = m \<and>
    (\<exists>k. 1 \<le> k \<and> k \<le> length (show_digits m) \<and> shortest_decimal m \<in> set (shortest_candidates m k)))"
proof (cases "List.find (\<lambda>v. round_double v = m)
         (concat (map (shortest_candidates m) [1..<Suc (length (show_digits m))]))")
  case None
  then have "shortest_decimal m = m"
    by (simp only: shortest_decimal_def option.case)
  then show ?thesis by (rule disjI1)
next
  case (Some w)
  then have eq: "shortest_decimal m = w"
    by (simp only: shortest_decimal_def option.case)
  from find_Some_in[OF Some]
  have r: "round_double w = m"
    and mem: "w \<in> set (concat (map (shortest_candidates m) [1..<Suc (length (show_digits m))]))"
    by blast+
  from mem obtain k where k: "k \<in> set [1..<Suc (length (show_digits m))]"
    and w: "w \<in> set (shortest_candidates m k)"
    unfolding set_concat set_map by blast
  from k have "1 \<le> k \<and> k \<le> length (show_digits m)"
    by (simp only: set_upt atLeastLessThan_iff less_Suc_eq_le)
  with w r show ?thesis
    unfolding eq by blast
qed

lemma shortest_decimal_props:
  assumes "2 ^ 53 < m" and "m < 10 ^ 21" and "round_double m = m"
  shows "round_double (shortest_decimal m) = m"
    and "0 < shortest_decimal m"
    and "length (show_digits (shortest_decimal m)) \<le> 21"
proof -
  define v where "v = shortest_decimal m"
  define N where "N = length (show_digits m)"
  have m0: "0 \<le> m" using assms(1) by simp
  have N: "N \<le> 21"
    unfolding N_def by (rule show_digits_length[OF m0 assms(2)]) simp
  have mN: "m < 10 ^ N"
    unfolding N_def by (rule show_digits_bound[OF m0])
  have c: "v = m \<or> (round_double v = m \<and>
      (\<exists>k. 1 \<le> k \<and> k \<le> length (show_digits m) \<and> v \<in> set (shortest_candidates m k)))"
    unfolding v_def by (rule shortest_decimal_cases)
  have rv: "round_double v = m"
    using c assms(3) by (elim disjE conjE) (simp_all only:)
  have bounds: "0 \<le> v \<and> v \<le> 10 ^ N"
    using c
  proof (elim disjE conjE exE)
    assume "v = m"
    then show ?thesis using m0 mN by linarith
  next
    fix k
    assume "1 \<le> k" "k \<le> length (show_digits m)" "v \<in> set (shortest_candidates m k)"
    then show ?thesis
      unfolding N_def by (rule shortest_candidates_bounds[OF m0])
  qed
  have "(10::int) ^ N \<le> 10 ^ 21"
    using N by (rule power_increasing) simp
  with bounds have v21: "v \<le> 10 ^ 21" by linarith
  have "v \<noteq> 10 ^ 21"
  proof
    assume "v = 10 ^ 21"
    then have "round_double v = 10 ^ 21" by (simp only: round_double_1e21)
    with rv assms(2) show False by linarith
  qed
  with v21 have lt: "v < 10 ^ 21" by linarith
  have "v \<noteq> 0"
  proof
    assume "v = 0"
    then have "round_double v = 0" by (simp add: round_double_small)
    with rv assms(1) show False by simp
  qed
  with bounds have pos: "0 < v" by linarith
  show "round_double (shortest_decimal m) = m" using rv by (simp only: v_def)
  show "0 < shortest_decimal m" using pos by (simp only: v_def)
  have "length (show_digits v) \<le> 21"
    using pos lt by (intro show_digits_length) simp_all
  then show "length (show_digits (shortest_decimal m)) \<le> 21"
    by (simp only: v_def)
qed

text \<open>Below \<open>10^21\<close> the text of a Number is the decimal text of an integer that rounds to
  it.\<close>

lemma show_number_printed:
  assumes "decimal_number n"
  shows "show_number n = show_int (printed n)" and "round_double (printed n) = n"
proof -
  have num: "round_double n = n" and lt: "\<bar>n\<bar> < 10 ^ 21"
    using assms by (simp_all add: decimal_number_def is_number_def)
  consider "\<bar>n\<bar> \<le> 2 ^ 53" | "2 ^ 53 < n" | "n < - (2 ^ 53)"
    by linarith
  then have "show_number n = show_int (printed n) \<and> round_double (printed n) = n"
  proof cases
    case 1
    then show ?thesis
      by (simp add: show_number_def printed_def round_double_small)
  next
    case 2
    have n21: "n < 10 ^ 21" using lt by simp
    note p = shortest_decimal_props[OF 2 n21 num]
    have "show_magnitude n = show_digits (shortest_decimal n)"
      using p(3) by (simp add: show_magnitude_def Let_def)
    with 2 p(1,2) show ?thesis
      by (simp add: show_number_def printed_def show_int_def)
  next
    case 3
    then have big: "2 ^ 53 < - n" by simp
    have n21: "- n < 10 ^ 21" using lt by simp
    have num': "round_double (- n) = - n" using num by (simp add: round_double_minus)
    note p = shortest_decimal_props[OF big n21 num']
    have "show_magnitude (- n) = show_digits (shortest_decimal (- n))"
      using p(3) by (simp add: show_magnitude_def Let_def)
    moreover have "round_double (- shortest_decimal (- n)) = n"
      using p(1) by (simp add: round_double_minus)
    ultimately show ?thesis
      using 3 p(2) by (simp add: show_number_def printed_def show_int_def)
  qed
  then show "show_number n = show_int (printed n)" and "round_double (printed n) = n"
    by simp_all
qed


lemma show_int_num: "\<forall>c \<in> set (show_int i). is_num c"
  using show_digits_dec by (auto simp: show_int_def is_num_def)

lemma show_int_nonempty: "show_int i \<noteq> []"
  by (simp add: show_int_def show_digits_nonempty)

lemma is_num_not_special:
  assumes "is_num c"
  shows "\<not> is_space c" "c \<noteq> newline" "c \<noteq> CHR '',''" "c \<noteq> CHR ''=''" "c \<noteq> CHR ''(''" "c \<noteq> CHR '')''"
  using assms by (auto simp: is_num_def is_dec_def is_space_def newline_def)

lemma trim_id: "s \<noteq> [] \<Longrightarrow> \<not> is_space (hd s) \<Longrightarrow> \<not> is_space (last s) \<Longrightarrow> trim s = s"
  by (simp add: trim_def dropWhile_space_id hd_rev)

lemma trim_show_int: "trim (show_int i) = show_int i"
  using show_int_num[of i] show_int_nonempty[of i]
  by (intro trim_id) (simp_all add: is_num_not_special)

lemma trim_space_show_int: "trim (CHR '' '' # show_int i) = show_int i"
proof -
  have "is_space CHR '' ''" by (simp add: is_space_def)
  then have "trim (CHR '' '' # show_int i) = trim (show_int i)"
    by (simp add: trim_def)
  then show ?thesis by (simp add: trim_show_int)
qed

lemma split_on_none: "c \<notin> set a \<Longrightarrow> split_on c a = [a]"
  by (induction a) auto

lemma split_on_append: "c \<notin> set a \<Longrightarrow> split_on c (a @ c # rest) = a # split_on c rest"
  by (induction a) auto

subsection \<open>The text of a matrix, line by line\<close>

lemma entry_line_body:
  "decimal_number (fst (fst e)) \<Longrightarrow> decimal_number (snd (fst e)) \<Longrightarrow> decimal_number (snd e) \<Longrightarrow>
     entry_line e = entry_body e @ [newline]"
  by (cases e) (auto simp: entry_line_def entry_body_def show_number_printed)

lemma fold_lines:
  "\<forall>e \<in> set es.
      decimal_number (fst (fst e)) \<and> decimal_number (snd (fst e)) \<and> decimal_number (snd e) \<Longrightarrow>
     fold (\<lambda>e result. result @ entry_line e) es h = h @ unlines (map entry_body es)"
  by (induction es arbitrary: h) (simp_all add: unlines_def entry_line_body)

lemma untrimmed:
  "decimal_numbers m \<Longrightarrow>
   fold (\<lambda>e result. result @ entry_line e) (elements m)
     (''rows='' @ show_number (rows m) @ [newline] @ ''cols='' @ show_number (cols m) @ [newline])
   = unlines (lines_of m)"
  by (simp add: decimal_numbers_def fold_lines lines_of_def unlines_def show_number_printed)

lemma trim_drop_newline:
  assumes "s \<noteq> []" "\<not> is_space (hd s)" "\<not> is_space (last s)"
  shows "trim (s @ [newline]) = s"
proof -
  have "dropWhile is_space (s @ [newline]) = s @ [newline]"
    using assms(1,2) by (cases s) simp_all
  moreover have "is_space newline" by (simp add: is_space_def newline_def)
  moreover have "dropWhile is_space (rev s) = rev s"
    using assms(1,3) by (simp add: dropWhile_space_id hd_rev)
  ultimately show ?thesis by (simp add: trim_def)
qed

lemma split_unlines:
  "\<forall>l \<in> set ls. newline \<notin> set l \<Longrightarrow> newline \<notin> set l' \<Longrightarrow>
     split_on newline (unlines ls @ l') = ls @ [l']"
  by (induction ls) (simp_all add: unlines_def split_on_none split_on_append)

lemma newline_notin_show_int: "newline \<notin> set (show_int i)"
  using show_int_num[of i] is_num_not_special(2) by blast

lemma comma_notin_show_int: "CHR '','' \<notin> set (show_int i)"
  using show_int_num[of i] is_num_not_special(3) by blast

lemma equals_notin_show_int: "CHR ''='' \<notin> set (show_int i)"
  using show_int_num[of i] is_num_not_special(4) by blast

lemma last_show_int: "\<not> is_space (last (show_int i))"
  using show_int_num[of i] show_int_nonempty[of i] is_num_not_special(1) last_in_set by blast

lemma newline_neq: "c \<in> set ''rows=cl(), '' \<Longrightarrow> newline \<noteq> c"
  by (auto simp: newline_def)

lemma newline_notin_entry_body: "newline \<notin> set (entry_body e)"
  by (cases e) (simp add: entry_body_def newline_notin_show_int newline_neq)

lemma newline_notin_lines: "\<forall>l \<in> set (lines_of m). newline \<notin> set l"
  by (simp add: lines_of_def newline_notin_show_int newline_notin_entry_body newline_neq)

lemma entry_body_ends: "entry_body e \<noteq> []" "\<not> is_space (hd (entry_body e))" "\<not> is_space (last (entry_body e))"
proof -
  obtain r c v where e: "e = ((r, c), v)" by (cases e) auto
  show "entry_body e \<noteq> []" "\<not> is_space (hd (entry_body e))" "\<not> is_space (last (entry_body e))"
    by (simp_all add: e entry_body_def is_space_def)
qed

lemma lines_last: "\<not> is_space (last (last (lines_of m)))" "last (lines_of m) \<noteq> []"
proof -
  show "\<not> is_space (last (last (lines_of m)))"
  proof (cases "elements m = []")
    case True
    then show ?thesis by (simp add: lines_of_def last_show_int show_int_nonempty)
  next
    case False
    then have "last (lines_of m) = entry_body (last (elements m))"
      by (simp add: lines_of_def last_map)
    then show ?thesis by (simp add: entry_body_ends)
  qed
  show "last (lines_of m) \<noteq> []"
  proof (cases "elements m = []")
    case True
    then show ?thesis by (simp add: lines_of_def)
  next
    case False
    then have "last (lines_of m) = entry_body (last (elements m))"
      by (simp add: lines_of_def last_map)
    then show ?thesis by (simp add: entry_body_ends)
  qed
qed

lemma toString_lines:
  assumes "decimal_numbers m"
  shows "toString m = unlines (butlast (lines_of m)) @ last (lines_of m)"
proof -
  let ?ls = "lines_of m"
  let ?s = "unlines (butlast ?ls) @ last ?ls"
  have ne: "?ls \<noteq> []" by (simp add: lines_of_def)
  then have "unlines ?ls = unlines (butlast ?ls @ [last ?ls])" by simp
  then have u: "unlines ?ls = ?s @ [newline]"
    by (simp add: unlines_def del: append_butlast_last_id)
  have s_ne: "?s \<noteq> []" using lines_last(2) by simp
  have "hd ?s = CHR ''r''"
    by (cases "elements m") (simp_all add: lines_of_def unlines_def)
  then have hd: "\<not> is_space (hd ?s)" by (simp add: is_space_def)
  have last: "\<not> is_space (last ?s)" using lines_last by simp
  show ?thesis
    unfolding toString_def untrimmed[OF assms] u by (rule trim_drop_newline[OF s_ne hd last])
qed

lemma split_toString:
  assumes "decimal_numbers m"
  shows "split_on newline (toString m) = lines_of m"
proof -
  have ne: "lines_of m \<noteq> []" by (simp add: lines_of_def)
  have "\<forall>l \<in> set (butlast (lines_of m)). newline \<notin> set l"
    using newline_notin_lines in_set_butlastD by metis
  moreover have "newline \<notin> set (last (lines_of m))"
    using newline_notin_lines ne last_in_set by blast
  ultimately show ?thesis
    unfolding toString_lines[OF assms] using ne by (simp add: split_unlines)
qed

lemma header_number_show:
  "CHR ''='' \<notin> set p \<Longrightarrow> header_number (p @ CHR ''='' # show_int i) = Some (round_double i)"
  by (simp add: header_number_def split_on_append split_on_none equals_notin_show_int parseInt_show_int)

lemma header_rows: "header_number (''rows='' @ show_int i) = Some (round_double i)"
  using header_number_show[of "''rows''" i] by simp

lemma header_cols: "header_number (''cols='' @ show_int i) = Some (round_double i)"
  using header_number_show[of "''cols''" i] by simp

lemma slice_parens: "slice_1_neg1 (CHR ''('' # x @ '')'') = x"
  by (simp add: slice_1_neg1_def)

lemma endsWith_paren: "endsWith (CHR ''('' # x @ '')'') '')''"
  by (simp add: endsWith_def)

lemma split_fields:
  "split_on CHR '','' (show_int r @ '', '' @ show_int c @ '', '' @ show_int v)
     = [show_int r, CHR '' '' # show_int c, CHR '' '' # show_int v]"
proof -
  have 1: "CHR '','' \<notin> set (CHR '' '' # show_int c)" "CHR '','' \<notin> set (CHR '' '' # show_int v)"
    by (simp_all add: comma_notin_show_int)
  have "show_int r @ '', '' @ show_int c @ '', '' @ show_int v
      = show_int r @ CHR '','' # ((CHR '' '' # show_int c) @ CHR '','' # (CHR '' '' # show_int v))"
    by simp
  then show ?thesis
    by (simp only: split_on_append[OF comma_notin_show_int] split_on_append[OF 1(1)] split_on_none[OF 1(2)])
qed

lemma load_line:
  assumes "decimal_number r" and "decimal_number c" and "decimal_number v"
  shows "load_lines (entry_body ((r, c), v) # ls) m = load_lines ls (setElement m r c v)"
proof -
  let ?x = "show_int (printed r) @ '', '' @ show_int (printed c) @ '', '' @ show_int (printed v)"
  let ?b = "entry_body ((r, c), v)"
  have b: "?b = CHR ''('' # ?x @ '')''"
    by (simp add: entry_body_def)
  have t: "trim ?b = ?b"
    by (rule trim_id) (rule entry_body_ends)+
  have ne: "?b \<noteq> []" by (rule entry_body_ends)
  have st: "startsWith ?b ''(''" unfolding b by (rule startsWith_Cons)
  have en: "endsWith ?b '')''" unfolding b by (rule endsWith_paren)
  have sl: "slice_1_neg1 ?b = ?x" unfolding b by (rule slice_parens)
  have parts: "map trim (split_on CHR '','' ?x)
      = [show_int (printed r), show_int (printed c), show_int (printed v)]"
    unfolding split_fields by (simp add: trim_show_int trim_space_show_int)
  show ?thesis
    unfolding load_lines.simps t Let_def sl parts
    by (simp add: ne st en parseInt_show_int show_number_printed(2)[OF assms(1)]
        show_number_printed(2)[OF assms(2)] show_number_printed(2)[OF assms(3)])
qed

lemma load_lines_bodies:
  "\<forall>e \<in> set es.
      decimal_number (fst (fst e)) \<and> decimal_number (snd (fst e)) \<and> decimal_number (snd e) \<Longrightarrow>
   load_lines (map entry_body es) m =
     Inr (fold (\<lambda>e m. setElement m (fst (fst e)) (snd (fst e)) (snd e)) es m)"
proof (induction es arbitrary: m)
  case Nil
  then show ?case by simp
next
  case (Cons e es)
  obtain r c v where e: "e = ((r, c), v)" by (cases e) auto
  have x: "decimal_number r" "decimal_number c" "decimal_number v"
    using Cons.prems by (simp_all add: e)
  have rest: "\<forall>e \<in> set es.
      decimal_number (fst (fst e)) \<and> decimal_number (snd (fst e)) \<and> decimal_number (snd e)"
    using Cons.prems by simp
  show ?case
    by (simp add: e load_line[OF x] Cons.IH[OF rest] del: load_lines.simps)
qed

lemma fold_setElement_fresh:
  "distinct (map fst (acc @ es)) \<Longrightarrow> \<forall>e \<in> set es. snd e \<noteq> 0 \<Longrightarrow>
     fold (\<lambda>e m. setElement m (fst (fst e)) (snd (fst e)) (snd e)) es \<lparr>rows = r, cols = c, elements = acc\<rparr>
       = \<lparr>rows = r, cols = c, elements = acc @ es\<rparr>"
proof (induction es arbitrary: acc)
  case Nil
  then show ?case by simp
next
  case (Cons e es)
  have fresh: "fst e \<notin> fst ` set acc" using Cons.prems(1) by auto
  have "setElement \<lparr>rows = r, cols = c, elements = acc\<rparr> (fst (fst e)) (snd (fst e)) (snd e)
      = \<lparr>rows = r, cols = c, elements = acc @ [e]\<rparr>"
    using Cons.prems(2) fresh by (simp add: setElement_def map_set_fresh)
  moreover have "distinct (map fst ((acc @ [e]) @ es))" using Cons.prems(1) by simp
  moreover have "\<forall>e \<in> set es. snd e \<noteq> 0" using Cons.prems(2) by simp
  ultimately show ?case
    using Cons.IH[of "acc @ [e]"] by simp
qed

subsection \<open>The merge of \<^verbatim>\<open>main.js\<close> scans no range\<close>

lemma main_add_keeps_outside_entries:
  "main_add edge_A empty_2x2 = Inr edge_A" "main_add far_A empty_2x2 = Inr far_A"
  unfolding edge_A_def far_A_def empty_2x2_def by code_simp+

section \<open>Element access\<close>

text \<open>
  Claim C6. \<^verbatim>\<open>getElement\<close> and \<^verbatim>\<open>setElement\<close> are total on all integer coordinates (they
  are total functions with no error result, and no bound is tested). Storing a value
  other than \<open>0\<close> and reading the same coordinate returns the value; storing \<open>0\<close>
  removes the entry: the read returns \<open>0\<close>, the key is absent, and no entry with that
  key is left.
\<close>

theorem set_then_get:
  "(v \<noteq> 0 \<longrightarrow> getElement (setElement m row col v) row col = v) \<and>
   getElement (setElement m row col 0) row col = 0 \<and>
   map_get (row, col) (elements (setElement m row col 0)) = None \<and>
   \<not> map_has (row, col) (elements (setElement m row col 0)) \<and>
   length (filter (\<lambda>e. fst e = (row, col)) (elements (setElement m row col 0))) = 0"
  by (simp add: getElement_def setElement_def map_get_set map_get_delete map_has_keys
      keys_map_delete filter_key_map_delete)

theorem set_then_get_witness:
  "getElement (setElement edge_A 5 (- 7) 3) 5 (- 7) = 3 \<and>
   getElement (setElement edge_A 2 0 0) 2 0 = 0 \<and>
   elements (setElement edge_A 2 0 0) = []"
  using set_then_get [of 3 edge_A 5 "- 7"]
  by (simp add: edge_A_def setElement_def getElement_def)

section \<open>Addition and subtraction\<close>

text \<open>
  Claim C4. For operands of equal dimensions \<^verbatim>\<open>A.add(B)\<close> and \<^verbatim>\<open>B.add(A)\<close> are the same
  outcome (the same matrix, entry for entry, or the same error), a returned sum stores no
  \<open>0\<close>, and the sum is returned whenever the dimensions are not \<open>0\<close>.
\<close>

theorem add_commutative:
  assumes "rows A = rows B" and "cols A = cols B"
  shows "add A B = add B A \<and>
         (\<forall>R. add A B = Inr R \<longrightarrow> no_zero R) \<and>
         (rows A \<noteq> 0 \<and> cols A \<noteq> 0 \<longrightarrow> (\<exists>R. add A B = Inr R))"
proof -
  have c: "add_cell B A = add_cell A B"
    by (simp add: fun_eq_iff add_cell_def js_add_commute[of "getElement B _ _"])
  have "add A B = add B A"
    by (simp add: add_def assms c split: sum.splits)
  moreover have "\<forall>R. add A B = Inr R \<longrightarrow> no_zero R"
    using add_result(3) by (auto simp: well_formed_def)
  moreover have "rows A \<noteq> 0 \<and> cols A \<noteq> 0 \<longrightarrow> (\<exists>R. add A B = Inr R)"
    using assms add_succeeds by blast
  ultimately show ?thesis by blast
qed

theorem add_commutative_witness:
  "add scenario_A scenario_B = add scenario_B scenario_A \<and>
   (\<exists>R. add scenario_A scenario_B = Inr R \<and> no_zero R)"
proof -
  have r: "rows scenario_A = rows scenario_B" and c: "cols scenario_A = cols scenario_B"
    by (simp_all add: scenario_A_def scenario_B_def)
  have "rows scenario_A \<noteq> 0 \<and> cols scenario_A \<noteq> 0"
    by (simp add: scenario_A_def)
  with add_commutative [OF r c] show ?thesis by blast
qed

text \<open>
  Claim C10. Every entry of a result of \<^verbatim>\<open>add\<close> has \<open>0 \<le> row \<le> rows\<close> and
  \<open>0 \<le> col \<le> cols\<close>; every entry of a result of \<^verbatim>\<open>subtract\<close> has \<open>0 \<le> row < rows\<close> and
  \<open>0 \<le> col < cols\<close>; a coordinate outside the scanned range is absent from the result.
  Row \<open>rows\<close> itself is still summed by \<^verbatim>\<open>add\<close> (the sum as \<^verbatim>\<open>+\<close> computes it, which is
  the exact sum whenever that is a Number) and is empty in the result of \<^verbatim>\<open>subtract\<close>.
\<close>

theorem add_subtract_range:
  assumes "add A B = Inr R" and "subtract A B = Inr S"
  shows "(\<forall>e \<in> set (elements R).
            0 \<le> fst (fst e) \<and> fst (fst e) \<le> rows A \<and> 0 \<le> snd (fst e) \<and> snd (fst e) \<le> cols A) \<and>
         (\<forall>e \<in> set (elements S).
            0 \<le> fst (fst e) \<and> fst (fst e) < rows A \<and> 0 \<le> snd (fst e) \<and> snd (fst e) < cols A) \<and>
         (\<not> (0 \<le> r \<and> r \<le> rows A \<and> 0 \<le> c \<and> c \<le> cols A) \<longrightarrow> \<not> map_has (r, c) (elements R)) \<and>
         (\<not> (0 \<le> r \<and> r < rows A \<and> 0 \<le> c \<and> c < cols A) \<longrightarrow> \<not> map_has (r, c) (elements S)) \<and>
         (0 \<le> rows A \<and> 0 \<le> c \<and> c \<le> cols A \<longrightarrow>
            getElement R (rows A) c = js_add (getElement A (rows A) c) (getElement B (rows A) c)) \<and>
         (0 \<le> rows A \<and> 0 \<le> c \<and> c \<le> cols A \<and>
          is_number (getElement A (rows A) c + getElement B (rows A) c) \<longrightarrow>
            getElement R (rows A) c = getElement A (rows A) c + getElement B (rows A) c) \<and>
         getElement S (rows A) c = 0"
proof -
  have wfR: "unique_keys R" and wfS: "unique_keys S"
    using add_result(3)[OF assms(1)] subtract_result(3)[OF assms(2)] by (simp_all add: well_formed_def)
  have 1: "\<forall>e \<in> set (elements R).
            0 \<le> fst (fst e) \<and> fst (fst e) \<le> rows A \<and> 0 \<le> snd (fst e) \<and> snd (fst e) \<le> cols A"
  proof
    fix e assume "e \<in> set (elements R)"
    then have "map_get (fst (fst e), snd (fst e)) (elements R) = Some (snd e)"
      using entry_map_get[OF wfR, of "fst e" "snd e"] by simp
    then show "0 \<le> fst (fst e) \<and> fst (fst e) \<le> rows A \<and> 0 \<le> snd (fst e) \<and> snd (fst e) \<le> cols A"
      unfolding add_result(4)[OF assms(1)] by (simp split: if_splits)
  qed
  have 2: "\<forall>e \<in> set (elements S).
            0 \<le> fst (fst e) \<and> fst (fst e) < rows A \<and> 0 \<le> snd (fst e) \<and> snd (fst e) < cols A"
  proof
    fix e assume "e \<in> set (elements S)"
    then have "map_get (fst (fst e), snd (fst e)) (elements S) = Some (snd e)"
      using entry_map_get[OF wfS, of "fst e" "snd e"] by simp
    then show "0 \<le> fst (fst e) \<and> fst (fst e) < rows A \<and> 0 \<le> snd (fst e) \<and> snd (fst e) < cols A"
      unfolding subtract_result(4)[OF assms(2)] by (simp split: if_splits)
  qed
  have 3: "\<not> (0 \<le> r \<and> r \<le> rows A \<and> 0 \<le> c \<and> c \<le> cols A) \<longrightarrow> \<not> map_has (r, c) (elements R)"
    using add_result(4)[OF assms(1), of r c] by (auto simp: map_has_keys simp flip: map_get_None)
  have 4: "\<not> (0 \<le> r \<and> r < rows A \<and> 0 \<le> c \<and> c < cols A) \<longrightarrow> \<not> map_has (r, c) (elements S)"
    using subtract_result(4)[OF assms(2), of r c] by (auto simp: map_has_keys simp flip: map_get_None)
  have 5: "0 \<le> rows A \<and> 0 \<le> c \<and> c \<le> cols A \<longrightarrow>
            getElement R (rows A) c = js_add (getElement A (rows A) c) (getElement B (rows A) c)"
    by (simp add: getElement_alt[of R] add_result(4)[OF assms(1)])
  have 7: "0 \<le> rows A \<and> 0 \<le> c \<and> c \<le> cols A \<and>
          is_number (getElement A (rows A) c + getElement B (rows A) c) \<longrightarrow>
            getElement R (rows A) c = getElement A (rows A) c + getElement B (rows A) c"
    using 5 by (simp add: js_add_exact)
  have 6: "getElement S (rows A) c = 0"
    by (simp add: getElement_alt[of S] subtract_result(4)[OF assms(2)])
  from 1 2 3 4 5 6 7 show ?thesis by blast
qed

theorem add_subtract_range_witness:
  "add edge_A empty_2x2 = Inr edge_A \<and> subtract edge_A empty_2x2 = Inr empty_2x2 \<and>
   getElement edge_A (rows edge_A) 0 = getElement edge_A (rows edge_A) 0 + getElement empty_2x2 (rows edge_A) 0 \<and>
   getElement edge_A 2 0 = 5 \<and>
   getElement empty_2x2 (rows edge_A) 0 = 0"
proof -
  have a: "add edge_A empty_2x2 = Inr edge_A"
    unfolding edge_A_def empty_2x2_def by code_simp
  have s: "subtract edge_A empty_2x2 = Inr empty_2x2"
    unfolding edge_A_def empty_2x2_def by code_simp
  have d: "0 \<le> rows edge_A \<and> (0::int) \<le> 0 \<and> 0 \<le> cols edge_A"
    by (simp add: edge_A_def)
  have g: "getElement edge_A 2 0 = 5"
    by (simp add: edge_A_def getElement_def)
  have x: "is_number (getElement edge_A (rows edge_A) 0 + getElement empty_2x2 (rows edge_A) 0)"
    by (simp add: edge_A_def empty_2x2_def getElement_def is_number_small)
  from add_subtract_range [OF a s, of _ 0] d a s g x show ?thesis by blast
qed




section \<open>Dimension errors\<close>

text \<open>
  Claim C3, amended. \<^verbatim>\<open>add\<close> and \<^verbatim>\<open>subtract\<close> fail with their dimension error exactly when
  the row counts or the column counts differ, \<^verbatim>\<open>multiply\<close> exactly when
  \<open>cols this \<noteq> rows other\<close>; the error is a fixed message that names the operation, and
  the outcome is the error alone, with no matrix. The operands are values of the model,
  which no operation writes.
\<close>

theorem dimension_mismatch_iff:
  "(add A B = Inl (Error ''Matrix dimensions do not match for addition'')
      \<longleftrightarrow> rows A \<noteq> rows B \<or> cols A \<noteq> cols B) \<and>
   (subtract A B = Inl (Error ''Matrix dimensions do not match for subtraction'')
      \<longleftrightarrow> rows A \<noteq> rows B \<or> cols A \<noteq> cols B) \<and>
   (multiply A B progressCallback obs = Inl (Error ''Matrix dimensions are not compatible for multiplication'')
      \<longleftrightarrow> cols A \<noteq> rows B)"
  by (simp add: add_def subtract_def multiply_def new_SparseMatrix_def Let_def split: prod.splits)

theorem dimension_mismatch_iff_witness:
  "add (empty_matrix 2 3) (empty_matrix 3 2) = Inl (Error ''Matrix dimensions do not match for addition'') \<and>
   subtract (empty_matrix 2 3) (empty_matrix 3 2) = Inl (Error ''Matrix dimensions do not match for subtraction'') \<and>
   multiply (empty_matrix 2 3) (empty_matrix 2 3) (None :: (rat \<Rightarrow> unit \<Rightarrow> unit) option) ()
     = Inl (Error ''Matrix dimensions are not compatible for multiplication'')"
  using dimension_mismatch_iff [of "empty_matrix 2 3" "empty_matrix 3 2" None "()"]
    dimension_mismatch_iff [of "empty_matrix 2 3" "empty_matrix 2 3" "None :: (rat \<Rightarrow> unit \<Rightarrow> unit) option" "()"]
  by (simp add: empty_matrix_def)

text \<open>
  The error does not name the conflicting dimensions: a \<open>2 \<times> 3\<close> with a \<open>3 \<times> 2\<close> operand
  and a \<open>7 \<times> 5\<close> with a \<open>7 \<times> 6\<close> operand fail with one and the same error.
\<close>

theorem error_names_dimensions_counterexample:
  "add (empty_matrix 2 3) (empty_matrix 3 2) = Inl (Error ''Matrix dimensions do not match for addition'') \<and>
   add (empty_matrix 7 5) (empty_matrix 7 6) = Inl (Error ''Matrix dimensions do not match for addition'') \<and>
   add (empty_matrix 2 3) (empty_matrix 3 2) = add (empty_matrix 7 5) (empty_matrix 7 6)"
  by (simp add: add_def empty_matrix_def)

section \<open>The scenario of the specification\<close>

text \<open>
  Claim C5. With \<open>A = {(0,0):1, (1,1):2}\<close> and \<open>B = {(0,0):3, (0,1):4}\<close>, both
  \<open>2 \<times> 2\<close>: the sum is \<open>{(0,0):4, (0,1):4, (1,1):2}\<close>, the difference is
  \<open>{(0,0):-2, (0,1):-4, (1,1):2}\<close> and the product is \<open>{(0,0):3, (0,1):4}\<close>.
\<close>

theorem scenario:
  "add scenario_A scenario_B =
     Inr \<lparr>rows = 2, cols = 2, elements = [((0, 0), 4), ((0, 1), 4), ((1, 1), 2)]\<rparr> \<and>
   subtract scenario_A scenario_B =
     Inr \<lparr>rows = 2, cols = 2, elements = [((0, 0), - 2), ((0, 1), - 4), ((1, 1), 2)]\<rparr> \<and>
   multiply0 scenario_A scenario_B =
     Inr \<lparr>rows = 2, cols = 2, elements = [((0, 0), 3), ((0, 1), 4)]\<rparr>"
  by code_simp

theorem scenario_witness:
  "elements scenario_A = [((0, 0), 1), ((1, 1), 2)] \<and>
   elements scenario_B = [((0, 0), 3), ((0, 1), 4)] \<and>
   (\<exists>R. add scenario_A scenario_B = Inr R \<and> set (elements R) = {((0, 0), 4), ((0, 1), 4), ((1, 1), 2)}) \<and>
   (\<exists>R. subtract scenario_A scenario_B = Inr R \<and> set (elements R) = {((0, 0), - 2), ((0, 1), - 4), ((1, 1), 2)}) \<and>
   (\<exists>R. multiply0 scenario_A scenario_B = Inr R \<and> set (elements R) = {((0, 0), 3), ((0, 1), 4)})"
  using scenario by (simp add: scenario_A_def scenario_B_def setElement_def)

section \<open>Multiplication\<close>

text \<open>
  Claim C1 fails on the code. The product of the row \<open>(1 1)\<close> and the column \<open>(1 -1)\<close>
  is \<open>0\<close>, but \<^verbatim>\<open>multiply\<close> returns the entry \<open>(0,0):1\<close>: when the accumulated value
  becomes \<open>0\<close> the guard \<^verbatim>\<open>if (newValue !== 0)\<close> skips \<^verbatim>\<open>setElement\<close>, and the stale
  partial sum stays stored. The \<^verbatim>\<open>multiply\<close> of \<^verbatim>\<open>main.js\<close>, which calls \<^verbatim>\<open>setElement\<close>
  without the guard, returns the empty product.
\<close>

theorem multiply_keeps_cancelled_sum:
  "multiply0 cancel_A cancel_B = Inr \<lparr>rows = 1, cols = 1, elements = [((0, 0), 1)]\<rparr> \<and>
   getElement cancel_A 0 0 * getElement cancel_B 0 0 + getElement cancel_A 0 1 * getElement cancel_B 1 0 = 0 \<and>
   main_multiply cancel_A cancel_B = Inr \<lparr>rows = 1, cols = 1, elements = []\<rparr>"
  by code_simp

text \<open>
  Claim C7 fails on the code, by the same guard. With \<open>B1 + B2 = B\<close> the column
  \<open>(1 -1)\<close>: \<^verbatim>\<open>A.multiply(B1.add(B2))\<close> stores \<open>(0,0):1\<close>, while
  \<^verbatim>\<open>A.multiply(B1).add(A.multiply(B2))\<close> is empty.
\<close>

theorem multiply_not_distributive:
  "add cancel_B1 cancel_B2 = Inr cancel_B \<and>
   multiply0 cancel_A cancel_B = Inr \<lparr>rows = 1, cols = 1, elements = [((0, 0), 1)]\<rparr> \<and>
   multiply0 cancel_A cancel_B1 = Inr \<lparr>rows = 1, cols = 1, elements = [((0, 0), 1)]\<rparr> \<and>
   multiply0 cancel_A cancel_B2 = Inr \<lparr>rows = 1, cols = 1, elements = [((0, 0), - 1)]\<rparr> \<and>
   add \<lparr>rows = 1, cols = 1, elements = [((0, 0), 1)]\<rparr> \<lparr>rows = 1, cols = 1, elements = [((0, 0), - 1)]\<rparr>
     = Inr \<lparr>rows = 1, cols = 1, elements = []\<rparr>"
  by code_simp

theorem multiply_not_distributive_witness:
  "\<exists>BC L P Q R.
     add cancel_B1 cancel_B2 = Inr BC \<and> multiply0 cancel_A BC = Inr L \<and>
     multiply0 cancel_A cancel_B1 = Inr P \<and> multiply0 cancel_A cancel_B2 = Inr Q \<and>
     add P Q = Inr R \<and> set (elements L) \<noteq> set (elements R)"
proof -
  have "set (elements \<lparr>rows = 1, cols = 1, elements = [((0, 0), 1)]\<rparr>)
          \<noteq> set (elements \<lparr>rows = 1, cols = 1, elements = []\<rparr>)"
    by simp
  with multiply_not_distributive show ?thesis by blast
qed

text \<open>
  Claim C9. \<^verbatim>\<open>multiply\<close> with a progress callback and \<^verbatim>\<open>multiply\<close> with none have the same
  outcome, matrix or error; with none the observer's state is untouched. The callback is
  called once for every 1000000 operations counted (one operation per stored entry of
  \<open>A\<close> and column of \<open>B\<close>), with the fraction done, and at no other time.
\<close>

theorem progress_callback_no_effect:
  "map_sum id fst (multiply A B (Some cb) obs) = multiply0 A B \<and>
   multiply A B None obs = map_sum id (\<lambda>R. (R, obs)) (multiply0 A B) \<and>
   (\<forall>R obs'. multiply A B (Some cb) obs = Inr (R, obs') \<longrightarrow>
      obs' = fold cb (map (\<lambda>j. of_int (j * 1000000) / of_int (int (length (elements A)) * cols B))
                       [1..int (length (elements A)) * cols B div 1000000]) obs)"
proof -
  have 1: "map_sum id fst (multiply A B (Some cb) obs) = multiply0 A B"
    by (simp add: multiply0_def multiply_unfold split: sum.splits)
  have 2: "multiply A B None obs = map_sum id (\<lambda>R. (R, obs)) (multiply0 A B)"
    by (simp add: multiply0_def multiply_unfold report_None split: sum.splits)
  have 3: "\<forall>R obs'. multiply A B (Some cb) obs = Inr (R, obs') \<longrightarrow>
      obs' = fold cb (map (\<lambda>j. of_int (j * 1000000) / of_int (int (length (elements A)) * cols B))
                       [1..int (length (elements A)) * cols B div 1000000]) obs"
    by (auto simp: multiply_unfold reports_of_multiply split: sum.splits if_splits)
  from 1 2 3 show ?thesis by blast
qed

theorem progress_callback_no_effect_witness:
  "multiply scenario_A scenario_B (Some (\<lambda>p log. p # log)) [] =
     Inr (\<lparr>rows = 2, cols = 2, elements = [((0, 0), 3), ((0, 1), 4)]\<rparr>, []) \<and>
   multiply scenario_A scenario_B None [0 :: rat] =
     Inr (\<lparr>rows = 2, cols = 2, elements = [((0, 0), 3), ((0, 1), 4)]\<rparr>, [0]) \<and>
   (\<exists>R. multiply one_entry (empty_matrix 1 1000000) (Some (\<lambda>p log. p # log)) [] = Inr (R, [1]))"
proof -
  have m: "multiply0 scenario_A scenario_B = Inr \<lparr>rows = 2, cols = 2, elements = [((0, 0), 3), ((0, 1), 4)]\<rparr>"
    by code_simp
  have l: "int (length (elements scenario_A)) * cols scenario_B = 4"
    by (simp add: scenario_A_def scenario_B_def setElement_def)
  from progress_callback_no_effect [of scenario_A scenario_B "\<lambda>p log. p # log" "[]"]
    progress_callback_no_effect [of scenario_A scenario_B "\<lambda>p log. p # log" "[0]"]
  have small: "multiply scenario_A scenario_B (Some (\<lambda>p log. p # log)) [] =
     Inr (\<lparr>rows = 2, cols = 2, elements = [((0, 0), 3), ((0, 1), 4)]\<rparr>, []) \<and>
   multiply scenario_A scenario_B None [0 :: rat] =
     Inr (\<lparr>rows = 2, cols = 2, elements = [((0, 0), 3), ((0, 1), 4)]\<rparr>, [0])"
    unfolding m l by (cases "multiply scenario_A scenario_B (Some (\<lambda>p log. p # log)) []") auto
  obtain R log where big: "multiply one_entry (empty_matrix 1 1000000) (Some (\<lambda>p log. p # log)) [] = Inr (R, log)"
    using multiply_succeeds [of one_entry "empty_matrix 1 1000000" "Some (\<lambda>p log. p # log)" "[]"]
    by (auto simp: one_entry_def empty_matrix_def)
  have n: "int (length (elements one_entry)) * cols (empty_matrix 1 1000000) = 1000000"
    by (simp add: one_entry_def empty_matrix_def)
  have "[1..1000000 div 1000000] = [1::int]"
    by (simp add: upto_rec1)
  with progress_callback_no_effect [of one_entry "empty_matrix 1 1000000" "\<lambda>p log. p # log" "[]"] big
  have "log = [1]"
    unfolding n by simp
  with big small show ?thesis by blast
qed

section \<open>The text format\<close>

text \<open>
  Claim C8, amended. For every matrix that satisfies the representation invariant and
  whose dimensions, coordinates and values are Numbers below \<open>10^21\<close> in magnitude,
  loading the text that \<^verbatim>\<open>toString\<close> produces returns the matrix itself: the same \<open>rows\<close>, the same
  \<open>cols\<close> and the same entries (in the same order).
\<close>

theorem toString_load_roundtrip:
  assumes "well_formed M" and "decimal_numbers M"
  shows "loadFromFile (toString M) = Inr (Some M)"
proof -
  have d: "distinct (map fst ([] @ elements M))" and z: "\<forall>e \<in> set (elements M). snd e \<noteq> 0"
    using assms(1) by (simp_all add: well_formed_def unique_keys_def no_zero_def)
  have x: "\<forall>e \<in> set (elements M).
      decimal_number (fst (fst e)) \<and> decimal_number (snd (fst e)) \<and> decimal_number (snd e)"
    and xr: "decimal_number (rows M)" and xc: "decimal_number (cols M)"
    using assms(2) by (simp_all add: decimal_numbers_def)
  have "load_lines (map entry_body (elements M)) \<lparr>rows = rows M, cols = cols M, elements = []\<rparr>
      = Inr \<lparr>rows = rows M, cols = cols M, elements = elements M\<rparr>"
    unfolding load_lines_bodies[OF x] using fold_setElement_fresh[OF d z] by simp
  then show ?thesis
    unfolding loadFromFile_def split_toString[OF assms(2)] lines_of_def
    by (simp add: header_rows header_cols show_number_printed(2)[OF xr]
        show_number_printed(2)[OF xc] del: append.simps)
qed

text \<open>
  Beyond the bound the text is not the decimal text any more: \<open>10^21\<close> is printed as
  \<^verbatim>\<open>1e+21\<close>, of which \<^verbatim>\<open>parseInt\<close> reads the \<open>1\<close>.
\<close>

theorem toString_load_roundtrip_counterexample:
  "well_formed big_M \<and>
   toString big_M = ''rows=1'' @ [newline] @ ''cols=1'' @ [newline] @ ''(0, 0, 1e+21)'' \<and>
   loadFromFile (toString big_M) = Inr (Some \<lparr>rows = 1, cols = 1, elements = [((0, 0), 1)]\<rparr>) \<and>
   elements big_M = [((0, 0), 1000000000000000000000)] \<and>
   is_number (getElement big_M 0 0)"
proof -
  have w: "well_formed big_M"
    by (simp add: well_formed_def unique_keys_def no_zero_def big_M_def)
  have t: "toString big_M = ''rows=1'' @ [newline] @ ''cols=1'' @ [newline] @ ''(0, 0, 1e+21)''"
    unfolding big_M_def by code_simp
  have l: "loadFromFile (''rows=1'' @ [newline] @ ''cols=1'' @ [newline] @ ''(0, 0, 1e+21)'')
      = Inr (Some \<lparr>rows = 1, cols = 1, elements = [((0, 0), 1)]\<rparr>)"
    by code_simp
  have n: "is_number (getElement big_M 0 0)"
    unfolding big_M_def by code_simp
  have e: "elements big_M = [((0, 0), 1000000000000000000000)]"
    by (simp add: big_M_def)
  from w t l n e show ?thesis by simp
qed

theorem toString_load_roundtrip_witness:
  "loadFromFile (toString cancel_B) = Inr (Some cancel_B) \<and>
   toString cancel_B =
     ''rows=2'' @ [newline] @ ''cols=1'' @ [newline] @ ''(0, 0, 1)'' @ [newline] @ ''(1, 0, -1)''"
proof -
  have w: "well_formed cancel_B"
    by (simp add: well_formed_def unique_keys_def no_zero_def cancel_B_def)
  have x: "decimal_numbers cancel_B"
    by (simp add: decimal_numbers_def decimal_number_def is_number_small cancel_B_def)
  have t: "toString cancel_B =
     ''rows=2'' @ [newline] @ ''cols=1'' @ [newline] @ ''(0, 0, 1)'' @ [newline] @ ''(1, 0, -1)''"
    by code_simp
  from toString_load_roundtrip [OF w x] t show ?thesis by simp
qed

end
